theory Spec2Isabelle
  imports Main "HOL-Library.AList"
begin

section \<open>The tri-state container \<open>Var[T]\<close> (null.go)\<close>

text \<open>
  \<open>Var[T]\<close> is a struct of two flags and a payload. The methods with a pointer receiver
  assign to the three fields; they are functions from the container they find to the
  container they leave. The zero value of the type parameter (Go's \<open>var def T\<close>) is the
  argument \<open>def\<close>.
\<close>

datatype 'a var = Var (set_v: bool) (valid_v: bool) (value_v: 'a)

definition nullBytes :: string where
  "nullBytes = ''null''"

definition Set :: "'a var \<Rightarrow> 'a \<Rightarrow> 'a var" where
  "Set v val = Var True True val"

definition Unset :: "'a \<Rightarrow> 'a var \<Rightarrow> 'a var" where
  "Unset def v = Var False False def"

definition SetNil :: "'a \<Rightarrow> 'a var \<Rightarrow> 'a var" where
  "SetNil def v = Var True False def"

definition Val :: "'a var \<Rightarrow> 'a" where
  "Val v = value_v v"

definition IsSet :: "'a var \<Rightarrow> bool" where
  "IsSet v = set_v v"

definition Valid :: "'a var \<Rightarrow> bool" where
  "Valid v = valid_v v"

text \<open>
  \<open>json.Marshal\<close>, \<open>json.Unmarshal\<close> and \<open>convertAssign\<close> are collaborators of the
  container and are parameters here. An encoder returns an error or the bytes. A decoder
  and the coercion routine write through a pointer to the payload: they take the payload
  they find and return an optional error with the payload they leave.
  \<open>UnmarshalJSON\<close> stores the zero value before it looks at the input, so its decoder
  starts from \<open>def\<close>; \<open>Scan\<close> does not, so \<open>convertAssign\<close> starts from the old
  payload.
\<close>

definition MarshalJSON :: "('a \<Rightarrow> 'e + string) \<Rightarrow> 'a var \<Rightarrow> 'e + string" where
  "MarshalJSON json_Marshal v =
     (if \<not> valid_v v \<or> \<not> set_v v then Inr nullBytes
      else json_Marshal (value_v v))"

definition UnmarshalJSON ::
  "(string \<Rightarrow> 'a \<Rightarrow> 'e option \<times> 'a) \<Rightarrow> 'a \<Rightarrow> 'a var \<Rightarrow> string \<Rightarrow> 'e option \<times> 'a var" where
  "UnmarshalJSON json_Unmarshal def v data =
     (if nullBytes = data then (None, Var True False def)
      else (case json_Unmarshal data def of
              (err, val) \<Rightarrow> (err, Var True True val)))"

definition Scan ::
  "('a \<Rightarrow> 's \<Rightarrow> 'e option \<times> 'a) \<Rightarrow> 'a \<Rightarrow> 'a var \<Rightarrow> 's option \<Rightarrow> 'e option \<times> 'a var" where
  "Scan convertAssign def v src =
     (case src of
        None \<Rightarrow> (None, Var True False def)
      | Some s \<Rightarrow> (case convertAssign (value_v v) s of
                    (err, val) \<Rightarrow> (err, Var True True val)))"

definition isSet :: "'a var \<Rightarrow> bool" where
  "isSet v = set_v v"

text \<open>The invariant of the data model: the two clauses that constrain the state.\<close>

definition tri_state_inv :: "'a \<Rightarrow> 'a var \<Rightarrow> bool" where
  "tri_state_inv def v \<longleftrightarrow>
     (\<not> set_v v \<longrightarrow> \<not> valid_v v \<and> value_v v = def) \<and>
     (set_v v \<and> \<not> valid_v v \<longrightarrow> value_v v = def)"

text \<open>
  What \<open>encoding/json\<close> writes for a payload of type \<open>*bool\<close>: \<open>null\<close> for the nil
  pointer, the literal otherwise. It never fails.
\<close>

definition json_Marshal_boolptr :: "bool option \<Rightarrow> unit + string" where
  "json_Marshal_boolptr p =
     (case p of None \<Rightarrow> Inr ''null'' | Some b \<Rightarrow> Inr (if b then ''true'' else ''false''))"

section \<open>Dynamic values as the filtering engine tells them apart\<close>

text \<open>
  A struct field as reflection describes it: its name, whether it is exported
  (\<open>CanInterface\<close>), whether it is embedded (\<open>Anonymous\<close>), its tag as key/value pairs
  (\<open>Tag.Lookup\<close> returns the first pair of a key), whether its declared type is an
  interface type, and its value.
\<close>

datatype 'v field = Field (fname: string) (fexported: bool) (fanonymous: bool)
  (ftag: "(string \<times> string) list") (fiface: bool) (fvalue: 'v)

text \<open>
  The values an \<open>any\<close> holds:
  the nil interface; an opaque plain value (a scalar, a slice, a function, a channel);
  a container \<open>Var[T]\<close>, whose payload is again a value; a pointer, with whether it is
  nil and the value it points to (for a nil pointer the zero value of the element type,
  which stands for the type); a \<open>map[string]any\<close>, \<open>None\<close> being the nil map, as the
  list of its entries in the order the \<open>range\<close> loop visits them; a map of another
  type; a struct value of another type than \<open>Var[T]\<close>, with whether its type implements
  \<open>Filterable\<close> and its fields in declaration order. Whether a struct or a pointer
  satisfies \<open>nullVar\<close> follows from the fields (\<open>promoted\<close> below).
\<close>

datatype gval =
    VNil
  | VScalar string
  | VVar "gval var"
  | VPtr bool gval
  | VMap "(string \<times> gval) list option"
  | VOtherMap "(string \<times> string) list"
  | VStruct bool "gval field list"

type_synonym entries = "(string \<times> gval) list"

text \<open>A call returns, or it ends in a run-time panic.\<close>

datatype 'a exec = Panic | Returns 'a

definition getVal :: "gval var \<Rightarrow> gval" where
  "getVal v = (if \<not> set_v v \<or> \<not> valid_v v then VNil else value_v v)"

text \<open>
  The method set of a type, as far as \<open>isSet\<close> and \<open>getVal\<close> go. \<open>Var[T]\<close> declares
  them with a value receiver. A struct type has the methods of a container it embeds,
  directly or through embedded structs and pointers to structs, when exactly one
  embedded container lies at the shallowest depth; Go's selector rule drops a method
  found twice at that depth. A pointer type has the methods of its element type, unless
  that is a pointer type again; a call through a nil pointer panics.
  \<open>promoted v\<close> is \<open>None\<close> when the type of \<open>v\<close> reaches no container, and otherwise
  the shallowest depth with what a call of the methods does there: nothing (\<open>None\<close>)
  when the depth holds more than one container, a panic when the way to the container
  goes through a nil pointer, the container otherwise.
  Only embedded fields declared with a concrete type count: an interface type declared
  outside the package cannot list the unexported methods.
\<close>

fun shallowest ::
  "(nat \<times> 'a option) option \<Rightarrow> (nat \<times> 'a option) option \<Rightarrow> (nat \<times> 'a option) option" where
  "shallowest None y = y"
| "shallowest (Some x) None = Some x"
| "shallowest (Some (d1, r1)) (Some (d2, r2)) =
     (if d1 < d2 then Some (d1, r1)
      else if d2 < d1 then Some (d2, r2)
      else Some (d1, None))"

fun through :: "bool \<Rightarrow> (nat \<times> 'a exec option) option \<Rightarrow> (nat \<times> 'a exec option) option" where
  "through False x = x"
| "through True None = None"
| "through True (Some (d, None)) = Some (d, None)"
| "through True (Some (d, Some r)) = Some (d, Some Panic)"

function (sequential) promoted :: "gval \<Rightarrow> (nat \<times> gval var exec option) option"
  and promoted_fields :: "gval field list \<Rightarrow> (nat \<times> gval var exec option) option"
where
  "promoted (VVar c) = Some (0, Some (Returns c))"
| "promoted (VStruct flt flds) =
     (case promoted_fields flds of
        None \<Rightarrow> None
      | Some (d, r) \<Rightarrow> Some (Suc d, r))"
| "promoted (VPtr isNil (VPtr isNil' v)) = None"
| "promoted (VPtr isNil v) = through isNil (promoted v)"
| "promoted v = None"
| "promoted_fields [] = None"
| "promoted_fields (Field nm ex an tags ifc v # flds) =
     shallowest (if an \<and> \<not> ifc then promoted v else None) (promoted_fields flds)"
  by pat_completeness auto

termination
  by (relation "measure (case_sum size (size_list (size_field size)))") auto

text \<open>
  The type assertion \<open>v.(nullVar)\<close>: \<open>None\<close> when it fails; otherwise what the calls
  of \<open>isSet\<close> and \<open>getVal\<close> through the value do, a panic or the container they read.
\<close>

definition asNullVar :: "gval \<Rightarrow> gval var exec option" where
  "asNullVar v = (case promoted v of Some (d, Some r) \<Rightarrow> Some r | _ \<Rightarrow> None)"

text \<open>The type assertion \<open>v.(map[string]any)\<close>.\<close>

fun asMap :: "gval \<Rightarrow> entries option option" where
  "asMap (VMap m) = Some m"
| "asMap v = None"

datatype kind = Invalid | Struct | Map | Interface | Ptr | OtherKind

fun kindOf :: "gval \<Rightarrow> kind" where
  "kindOf VNil = Invalid"
| "kindOf (VScalar s) = OtherKind"
| "kindOf (VVar v) = Struct"
| "kindOf (VPtr isNil v) = Ptr"
| "kindOf (VMap m) = Map"
| "kindOf (VOtherMap m) = Map"
| "kindOf (VStruct flt flds) = Struct"

text \<open>
  \<open>structField.Type.Kind()\<close> is the kind of the declared type: \<open>Interface\<close> for a
  field of interface type, whatever it holds, and the kind of the value otherwise.
\<close>

definition fieldKind :: "gval field \<Rightarrow> kind" where
  "fieldKind f = (if fiface f then Interface else kindOf (fvalue f))"

text \<open>The type assertion \<open>fieldValue.(Filterable)\<close>.\<close>

fun implFilterable :: "gval \<Rightarrow> bool" where
  "implFilterable (VStruct flt flds) = flt"
| "implFilterable v = False"

section \<open>The filtering engine (filter.go)\<close>

record filterOpts =
  tag :: string

text \<open>An option is a function on the options; \<open>None\<close> is the nil function.\<close>

type_synonym filterOpt = "(filterOpts \<Rightarrow> filterOpts) option"

definition defaultFilterOpts :: filterOpts where
  "defaultFilterOpts = \<lparr>tag = ''json''\<rparr>"

definition UseTag :: "string \<Rightarrow> filterOpt" where
  "UseTag t = (if t = '''' then Some (\<lambda>f. f) else Some (\<lambda>f. f\<lparr>tag := t\<rparr>))"

text \<open>
  The loop \<open>for _, opt := range opts { opt(&fOpts) }\<close> over a copy of the default
  options. Calling the nil function panics.
\<close>

fun applyOpts_loop :: "filterOpt list \<Rightarrow> filterOpts \<Rightarrow> filterOpts exec" where
  "applyOpts_loop [] fOpts = Returns fOpts"
| "applyOpts_loop (None # opts) fOpts = Panic"
| "applyOpts_loop (Some opt # opts) fOpts = applyOpts_loop opts (opt fOpts)"

definition applyOpts :: "filterOpt list \<Rightarrow> filterOpts exec" where
  "applyOpts opts = applyOpts_loop opts defaultFilterOpts"

text \<open>
  The two errors of the entry points: \<open>input cannot be nil\<close> and
  \<open>invalid type ... input must be a struct\<close>.
\<close>

datatype error = NilInput | NotARecord

text \<open>
  \<open>filterMap\<close>: \<open>filterMap_loop m retMap\<close> runs the \<open>range\<close> loop over the entries
  \<open>m\<close> that are left, with the output built so far. The type switch tries \<open>nullVar\<close>
  first, then \<open>map[string]any\<close>; calling \<open>isSet\<close> through a nil pointer panics. A nil
  map has no entry to visit.
\<close>

function (sequential) filterMap :: "entries option \<Rightarrow> entries exec"
  and filterMap_loop :: "entries \<Rightarrow> entries \<Rightarrow> entries exec"
where
  "filterMap None = Returns []"
| "filterMap (Some m) = filterMap_loop m []"
| "filterMap_loop [] retMap = Returns retMap"
| "filterMap_loop ((k, v) # m) retMap =
     (case asNullVar v of
        Some Panic \<Rightarrow> Panic
      | Some (Returns val) \<Rightarrow>
          if \<not> isSet val then filterMap_loop m retMap
          else filterMap_loop m (AList.update k (getVal val) retMap)
      | None \<Rightarrow>
          (case asMap v of
             Some val \<Rightarrow>
               (case filterMap val of
                  Panic \<Rightarrow> Panic
                | Returns mm \<Rightarrow>
                    if length mm = 0 then filterMap_loop m retMap
                    else filterMap_loop m (AList.update k (VMap (Some mm)) retMap))
           | None \<Rightarrow> filterMap_loop m (AList.update k v retMap)))"
  by pat_completeness auto

termination
  by (relation "measure (case_sum (size_option (size_list (size_prod (\<lambda>_. 0) size)))
                                  (\<lambda>(m, retMap). size_list (size_prod (\<lambda>_. 0) size) m))")
     (auto elim!: asMap.elims)

text \<open>The entry points return the pair (mapping, error) of the Go signature.\<close>

definition FilterMap :: "entries option \<Rightarrow> (entries option \<times> error option) exec" where
  "FilterMap m =
     (if m = None then Returns (None, Some NilInput)
      else (case filterMap m of
              Panic \<Rightarrow> Panic
            | Returns retMap \<Rightarrow> Returns (Some retMap, None)))"

text \<open>\<open>strings.Split\<close> with a separator of one character.\<close>

fun strings_Split :: "string \<Rightarrow> char \<Rightarrow> string list" where
  "strings_Split [] sep = [[]]"
| "strings_Split (c # s) sep =
     (if c = sep then [] # strings_Split s sep
      else (case strings_Split s sep of
              [] \<Rightarrow> [[c]]
            | w # ws \<Rightarrow> (c # w) # ws))"

definition Lookup :: "(string \<times> string) list \<Rightarrow> string \<Rightarrow> string \<times> bool" where
  "Lookup t key = (case map_of t key of None \<Rightarrow> ('''', False) | Some v \<Rightarrow> (v, True))"

text \<open>The output key of a field: the first segment of its tag under the configured name.\<close>

definition fieldName_of :: "string \<Rightarrow> gval field \<Rightarrow> string" where
  "fieldName_of tg f =
     (let tagOpts = strings_Split (fst (Lookup (ftag f) tg)) (CHR '','')
      in if length tagOpts > 0 then tagOpts ! 0 else '''')"

text \<open>The three \<open>continue\<close> statements that come before the switch on the kind.\<close>

definition skipped :: "string \<Rightarrow> gval field \<Rightarrow> bool" where
  "skipped tg f \<longleftrightarrow>
     \<not> fexported f
     \<or> (\<not> snd (Lookup (ftag f) tg) \<and> \<not> fanonymous f)
     \<or> (fieldName_of tg f = ''-''
        \<or> (fieldName_of tg f = '''' \<and> \<not> fanonymous f)
        \<or> (fieldName_of tg f = '''' \<and> fanonymous f \<and> fieldKind f \<noteq> Struct))"

text \<open>
  The loop that puts the entries of an embedded record on the level of the parent:
  an entry is stored only if the output has no such key yet.
\<close>

fun promote :: "entries \<Rightarrow> entries \<Rightarrow> entries" where
  "promote [] retMap = retMap"
| "promote ((k, v) # fs) retMap =
     (if map_of retMap k = None then promote fs (AList.update k v retMap)
      else promote fs retMap)"

text \<open>
  \<open>filterStruct\<close>: \<open>filterStruct_loop\<close> is the loop over the fields that are left and
  \<open>filterStruct_field\<close> one pass through its body, from the output built so far to the
  output after the field (unchanged where the body says \<open>continue\<close>).
  All fields of \<open>Var[T]\<close> are unexported, so the loop over a container stores nothing.
  \<open>NumField\<close> panics on a value that is not a struct.
\<close>

function (sequential) filterStruct :: "string \<Rightarrow> gval \<Rightarrow> entries exec"
  and filterStruct_loop :: "string \<Rightarrow> gval field list \<Rightarrow> entries \<Rightarrow> entries exec"
  and filterStruct_field :: "string \<Rightarrow> gval field \<Rightarrow> entries \<Rightarrow> entries exec"
where
  "filterStruct tg VNil = Returns []"
| "filterStruct tg (VStruct flt flds) = filterStruct_loop tg flds []"
| "filterStruct tg (VVar v) = Returns []"
| "filterStruct tg s = Panic"
| "filterStruct_loop tg [] retMap = Returns retMap"
| "filterStruct_loop tg (f # flds) retMap =
     (case filterStruct_field tg f retMap of
        Panic \<Rightarrow> Panic
      | Returns retMap' \<Rightarrow> filterStruct_loop tg flds retMap')"
| "filterStruct_field tg (Field nm ex an tags ifc fieldValue) retMap =
     (if skipped tg (Field nm ex an tags ifc fieldValue) then Returns retMap
      else (case fieldKind (Field nm ex an tags ifc fieldValue) of
        Struct \<Rightarrow>
          if implFilterable fieldValue then
            (case filterStruct tg fieldValue of
               Panic \<Rightarrow> Panic
             | Returns fs \<Rightarrow>
                 if an \<and> fieldName_of tg (Field nm ex an tags ifc fieldValue) = ''''
                 then Returns (promote fs retMap)
                 else if length fs = 0 then Returns retMap
                 else Returns (AList.update (fieldName_of tg (Field nm ex an tags ifc fieldValue))
                                 (VMap (Some fs)) retMap))
          else (case asNullVar fieldValue of
                  Some Panic \<Rightarrow> Panic
                | Some (Returns nv) \<Rightarrow>
                    if isSet nv
                    then Returns (AList.update (fieldName_of tg (Field nm ex an tags ifc fieldValue))
                                    (getVal nv) retMap)
                    else Returns retMap
                | None \<Rightarrow>
                    if fieldName_of tg (Field nm ex an tags ifc fieldValue) \<noteq> ''''
                    then Returns (AList.update (fieldName_of tg (Field nm ex an tags ifc fieldValue))
                                    fieldValue retMap)
                    else Returns retMap)
      | Map \<Rightarrow>
          (case asMap fieldValue of
             Some t \<Rightarrow>
               (case filterMap t of
                  Panic \<Rightarrow> Panic
                | Returns fm \<Rightarrow>
                    if length fm = 0 then Returns retMap
                    else Returns (AList.update (fieldName_of tg (Field nm ex an tags ifc fieldValue))
                                    (VMap (Some fm)) retMap))
           | None \<Rightarrow> Returns (AList.update (fieldName_of tg (Field nm ex an tags ifc fieldValue))
                           fieldValue retMap))
      | _ \<Rightarrow> Returns (AList.update (fieldName_of tg (Field nm ex an tags ifc fieldValue))
                      fieldValue retMap)))"
  by pat_completeness auto

termination
  by (relation "measure (case_sum (\<lambda>(tg, s). size s)
            (case_sum (\<lambda>(tg, flds, retMap). size_list (size_field size) flds)
                      (\<lambda>(tg, f, retMap). size_field size f)))")
     auto

definition FilterStruct :: "gval \<Rightarrow> filterOpt list \<Rightarrow> (entries option \<times> error option) exec" where
  "FilterStruct s opts =
     (if s = VNil then Returns (None, Some NilInput)
      else if kindOf s \<noteq> Struct then Returns (None, Some NotARecord)
      else (case applyOpts opts of
              Panic \<Rightarrow> Panic
            | Returns fOpts \<Rightarrow>
                (case filterStruct (tag fOpts) s of
                   Panic \<Rightarrow> Panic
                 | Returns retMap \<Rightarrow> Returns (Some retMap, None))))"

section \<open>Notions the properties are stated with\<close>

text \<open>The keys of a mapping.\<close>

definition keys :: "entries \<Rightarrow> string set" where
  "keys m = fst ` set m"

text \<open>
  The keys one field stores when its pass starts from the empty output: what the field
  yields when it is filtered on its own.
\<close>

definition field_keys :: "string \<Rightarrow> gval field \<Rightarrow> string set" where
  "field_keys tg f = (case filterStruct_field tg f [] of Panic \<Rightarrow> {} | Returns r \<Rightarrow> keys r)"

text \<open>
  No call of \<open>isSet\<close> goes through a nil pointer: in the mappings and records reached
  through nested mappings and struct fields, no entry of a string-to-any mapping and no
  field of struct kind is a value that satisfies \<open>nullVar\<close> and reaches its container
  through a nil pointer (a nil \<open>*Var[T]\<close>, a struct that embeds one).
\<close>

function (sequential) no_nil_ptr :: "gval \<Rightarrow> bool"
  and no_nil_ptr_entries :: "entries \<Rightarrow> bool"
  and no_nil_ptr_fields :: "gval field list \<Rightarrow> bool"
where
  "no_nil_ptr (VMap (Some m)) = no_nil_ptr_entries m"
| "no_nil_ptr (VStruct flt flds) = no_nil_ptr_fields flds"
| "no_nil_ptr v = True"
| "no_nil_ptr_entries [] = True"
| "no_nil_ptr_entries ((k, v) # m) =
     (asNullVar v \<noteq> Some Panic \<and> no_nil_ptr v \<and> no_nil_ptr_entries m)"
| "no_nil_ptr_fields [] = True"
| "no_nil_ptr_fields (Field nm ex an tags ifc v # flds) =
     ((kindOf v = Struct \<longrightarrow> asNullVar v \<noteq> Some Panic) \<and> no_nil_ptr v \<and> no_nil_ptr_fields flds)"
  by pat_completeness auto

termination
  by (relation "measure (case_sum size
            (case_sum (size_list (size_prod (\<lambda>_. 0) size))
                      (size_list (size_field size))))")
     auto

text \<open>
  A plain value: it does not satisfy \<open>nullVar\<close> (it is not a container, a pointer to
  one or a struct that embeds one) and it is not a string-to-any mapping.
\<close>

definition plain :: "gval \<Rightarrow> bool" where
  "plain v \<longleftrightarrow> asNullVar v = None \<and> asMap v = None"

text \<open>
  Every container met by map filtering (at any depth of nested string-to-any mappings)
  that is set and valid has a plain payload.
\<close>

function (sequential) plain_payloads :: "entries \<Rightarrow> bool" where
  "plain_payloads [] = True"
| "plain_payloads ((k, v) # m) =
     ((case asNullVar v of
         Some Panic \<Rightarrow> True
       | Some (Returns c) \<Rightarrow> set_v c \<and> valid_v c \<longrightarrow> plain (value_v c)
       | None \<Rightarrow>
           (case asMap v of
              Some (Some val) \<Rightarrow> plain_payloads val
            | _ \<Rightarrow> True))
      \<and> plain_payloads m)"
  by pat_completeness auto

termination
  by (relation "measure (size_list (size_prod (\<lambda>_. 0) size))") (auto elim!: asMap.elims)

text \<open>
  A filtered mapping: its keys are distinct, no value satisfies \<open>nullVar\<close>, and every
  nested string-to-any mapping is non-nil, non-empty and filtered.
\<close>

function (sequential) filtered_val :: "gval \<Rightarrow> bool"
  and filtered_vals :: "entries \<Rightarrow> bool"
where
  "filtered_val v =
     (asNullVar v = None \<and>
      (case asMap v of
         None \<Rightarrow> True
       | Some None \<Rightarrow> False
       | Some (Some m) \<Rightarrow> m \<noteq> [] \<and> distinct (map fst m) \<and> filtered_vals m))"
| "filtered_vals [] = True"
| "filtered_vals ((k, v) # m) = (filtered_val v \<and> filtered_vals m)"
  by pat_completeness auto

termination
  by (relation "measure (case_sum size (size_list (size_prod (\<lambda>_. 0) size)))")
     (auto elim!: asMap.elims)

definition filtered :: "entries \<Rightarrow> bool" where
  "filtered m \<longleftrightarrow> distinct (map fst m) \<and> filtered_vals m"

section \<open>The container\<close>

text \<open>
  Claim C7. Every operation on the container (\<open>Set\<close>, \<open>SetNil\<close>, \<open>Unset\<close>,
  \<open>UnmarshalJSON\<close>, \<open>Scan\<close>), started from a state that satisfies the tri-state
  invariant, leaves a state that satisfies it: an unset container is invalid and holds
  the zero value, a set and invalid container holds the zero value, and a set and valid
  container holds the live payload, which is the argument of \<open>Set\<close>, what the decoder
  left of the zero value, or what the coercion left of the old payload. This holds for
  every decoder and every coercion routine, whether they fail or not.
\<close>

theorem container_ops_keep_invariant:
  "tri_state_inv def v \<Longrightarrow>
     tri_state_inv def (Set v x) \<and> set_v (Set v x) \<and> valid_v (Set v x) \<and> value_v (Set v x) = x
   \<and> tri_state_inv def (SetNil def v) \<and> SetNil def v = Var True False def
   \<and> tri_state_inv def (Unset def v) \<and> Unset def v = Var False False def
   \<and> tri_state_inv def (snd (UnmarshalJSON dec def v data))
   \<and> (data \<noteq> nullBytes \<longrightarrow> snd (UnmarshalJSON dec def v data) = Var True True (snd (dec data def)))
   \<and> tri_state_inv def (snd (Scan conv def v src))
   \<and> (\<forall>s. src = Some s \<longrightarrow> snd (Scan conv def v src) = Var True True (snd (conv (value_v v) s)))"
  by (auto simp: tri_state_inv_def Set_def SetNil_def Unset_def UnmarshalJSON_def Scan_def
      split: option.splits prod.splits)

theorem container_ops_keep_invariant_witness:
  "tri_state_inv (0::int) (Var False False 0)
   \<and> tri_state_inv (0::int) (Set (Var False False 0) 7)
   \<and> tri_state_inv (0::int) (SetNil 0 (Var False False 0))
   \<and> tri_state_inv (0::int) (Unset 0 (Var False False 0))
   \<and> tri_state_inv (0::int) (snd (UnmarshalJSON (\<lambda>d x. (Some ''bad'', 3)) 0 (Var False False 0) ''x''))
   \<and> snd (UnmarshalJSON (\<lambda>d x. (Some ''bad'', 3)) (0::int) (Var False False 0) ''x'') = Var True True 3
   \<and> tri_state_inv (0::int) (snd (Scan (\<lambda>x s. (None :: string option, x + s)) 0 (Var False False 0) (Some 5)))
   \<and> snd (Scan (\<lambda>x s. (None :: string option, x + s)) (0::int) (Var False False 0) (Some 5)) = Var True True 5"
proof -
  have inv: "tri_state_inv (0::int) (Var False False 0)"
    by (simp add: tri_state_inv_def)
  have ne: "''x'' \<noteq> nullBytes"
    by (simp add: nullBytes_def)
  show ?thesis
    using inv ne
      container_ops_keep_invariant [OF inv, of 7 "\<lambda>d x. (Some ''bad'', 3)" "''x''"
        "\<lambda>x s. (None :: string option, x + s)" "Some 5"]
    by (simp add: tri_state_inv_def Set_def SetNil_def Unset_def UnmarshalJSON_def Scan_def)
qed

text \<open>
  Claim C8 as stated says that \<open>MarshalJSON\<close> returns the null marker if and only if
  the container is unset or invalid. The code hands a set and valid payload to the
  encoder and returns what it returns, and a payload can encode to \<open>null\<close>: a
  \<open>Var[*bool]\<close> that was \<open>Set\<close> to the nil pointer is set and valid and marshals to
  the null marker.
\<close>

theorem marshal_null_counterexample:
  "MarshalJSON json_Marshal_boolptr (Var True True None) = Inr nullBytes
   \<and> set_v (Var True True (None :: bool option))
   \<and> valid_v (Var True True (None :: bool option))"
  by (simp add: MarshalJSON_def json_Marshal_boolptr_def nullBytes_def)

text \<open>
  Claim C8, amended. \<open>MarshalJSON\<close> returns the null marker whenever the container is
  unset or invalid, and otherwise returns exactly what the encoding of the payload
  returns; the marker in the output implies unset-or-invalid only for a payload whose own
  encoding is not the marker. \<open>UnmarshalJSON\<close> always sets the set flag; on the null
  marker it clears the valid flag, stores the zero value and returns no error; on any
  other input it sets the valid flag, decodes the input into the payload (starting from
  the zero value) and returns the decoder's error.
\<close>

theorem json_contract:
  "(\<not> set_v v \<or> \<not> valid_v v \<longrightarrow> MarshalJSON enc v = Inr nullBytes)
   \<and> (set_v v \<and> valid_v v \<longrightarrow> MarshalJSON enc v = enc (value_v v))
   \<and> (enc (value_v v) \<noteq> Inr nullBytes \<longrightarrow>
        (MarshalJSON enc v = Inr nullBytes \<longleftrightarrow> \<not> set_v v \<or> \<not> valid_v v))
   \<and> set_v (snd (UnmarshalJSON dec def v data))
   \<and> (data = nullBytes \<longrightarrow> UnmarshalJSON dec def v data = (None, Var True False def))
   \<and> (data \<noteq> nullBytes \<longrightarrow>
        UnmarshalJSON dec def v data = (fst (dec data def), Var True True (snd (dec data def))))"
  by (auto simp: MarshalJSON_def UnmarshalJSON_def split: prod.splits)

theorem json_contract_witness:
  "MarshalJSON json_Marshal_boolptr (Var False False None) = Inr nullBytes
   \<and> MarshalJSON json_Marshal_boolptr (Var True True (Some True)) = Inr ''true''
   \<and> UnmarshalJSON (\<lambda>d x. (Some ''bad'', x)) (0::int) (Var False False 0) ''null''
       = (None, Var True False 0)
   \<and> UnmarshalJSON (\<lambda>d x. (Some ''bad'', x)) (0::int) (Var False False 0) ''{''
       = (Some ''bad'', Var True True 0)"
  using json_contract [where v = "Var False False None" and enc = json_Marshal_boolptr]
    json_contract [where v = "Var True True (Some True)" and enc = json_Marshal_boolptr]
    json_contract [where dec = "\<lambda>d x. (Some ''bad'', x)" and def = "0::int"
      and v = "Var False False 0" and data = "''null''"]
    json_contract [where dec = "\<lambda>d x. (Some ''bad'', x)" and def = "0::int"
      and v = "Var False False 0" and data = "''{''"]
  by (simp add: json_Marshal_boolptr_def nullBytes_def MarshalJSON_def UnmarshalJSON_def)

section \<open>The loop over the fields\<close>

lemmas field_eval = skipped_def fieldKind_def fieldName_of_def Lookup_def isSet_def getVal_def
  asNullVar_def

lemmas entry_eval = FilterStruct_def FilterMap_def applyOpts_def defaultFilterOpts_def UseTag_def

lemma loop_append:
  "filterStruct_loop tg (xs @ ys) r =
     (case filterStruct_loop tg xs r of Panic \<Rightarrow> Panic | Returns r' \<Rightarrow> filterStruct_loop tg ys r')"
  by (induction xs arbitrary: r) (simp_all split: exec.splits)

lemma loop_middle:
  "filterStruct_loop tg (pre @ f # post) r =
     (case filterStruct_loop tg pre r of
        Panic \<Rightarrow> Panic
      | Returns r1 \<Rightarrow>
          (case filterStruct_field tg f r1 of
             Panic \<Rightarrow> Panic
           | Returns r2 \<Rightarrow> filterStruct_loop tg post r2))"
  by (simp add: loop_append split: exec.splits)

text \<open>\<open>strings.Split\<close> never returns the empty slice, so a field always has a first segment.\<close>

lemma Split_nonempty: "strings_Split s sep \<noteq> []"
  by (induction s) (simp_all split: list.splits)


lemma promote_lookup:
  "map_of (promote fs r) k = (case map_of r k of Some v \<Rightarrow> Some v | None \<Rightarrow> map_of fs k)"
  by (induction fs arbitrary: r) (auto simp: update_conv' split: option.splits)

text \<open>A container, and a non-nil pointer to one, are read by the container's methods.\<close>

lemma asNullVar_simps [simp]:
  "asNullVar VNil = None"
  "asNullVar (VScalar x) = None"
  "asNullVar (VVar c) = Some (Returns c)"
  "asNullVar (VPtr True (VVar c)) = Some Panic"
  "asNullVar (VPtr False (VVar c)) = Some (Returns c)"
  "asNullVar (VMap m) = None"
  "asNullVar (VOtherMap om) = None"
  by (simp_all add: asNullVar_def)

text \<open>
  A struct that embeds one container has the container's methods; one that embeds two
  at the same depth has neither of them; the shallower of two wins.
\<close>

lemma asNullVar_embedded:
  "asNullVar (VStruct flt [Field nm ex True tags False (VVar c)]) = Some (Returns c)"
  "asNullVar (VStruct flt [Field nm ex True tags False (VVar c),
                           Field nm' ex' True tags' False (VVar c')]) = None"
  "asNullVar (VStruct flt [Field nm ex True tags False
                             (VStruct flt' [Field nm' ex' True tags' False (VVar c')]),
                           Field nm'' ex'' True tags'' False (VVar c)]) = Some (Returns c)"
  "asNullVar (VStruct flt [Field nm ex False tags False (VVar c)]) = None"
  by (simp_all add: asNullVar_def)


lemma embedded_record_step:
  assumes "fexported f" "fanonymous f" "\<not> fiface f" "fvalue f = VStruct True flds"
    and "fieldName_of tg f = ''''"
  shows "filterStruct_field tg f r =
           (case filterStruct tg (fvalue f) of Panic \<Rightarrow> Panic
            | Returns fs \<Rightarrow> Returns (promote fs r))"
  using assms by (cases f) (simp add: skipped_def fieldKind_def split: exec.splits)

section \<open>Embedded fields\<close>



text \<open>
  Claim C2 as stated speaks of every embedded field of a \<open>Filterable\<close> record type
  without an explicit tag key. An embedded field of an unexported type is an unexported
  field: \<open>CanInterface\<close> is false for it and the loop skips it before it looks at the
  tag or the kind. The record \<open>struct { base }\<close> with \<open>base\<close> a \<open>Filterable\<close> record
  \<open>struct { X string `json:"x"` }\<close> filters to the empty mapping, though the embedded
  record on its own filters to the entry \<open>x\<close>.
\<close>

theorem unexported_embedded_record_not_merged_counterexample:
  "fanonymous (Field ''base'' False True [] False
      (VStruct True [Field ''X'' True False [(''json'', ''x'')] False (VScalar ''v'')]))
   \<and> implFilterable (VStruct True
        [Field ''X'' True False [(''json'', ''x'')] False (VScalar ''v'')])
   \<and> fieldName_of ''json'' (Field ''base'' False True [] False
      (VStruct True [Field ''X'' True False [(''json'', ''x'')] False (VScalar ''v'')])) = ''''
   \<and> filterStruct ''json''
        (VStruct True [Field ''X'' True False [(''json'', ''x'')] False (VScalar ''v'')])
      = Returns [(''x'', VScalar ''v'')]
   \<and> FilterStruct
        (VStruct False
           [Field ''base'' False True [] False
              (VStruct True [Field ''X'' True False [(''json'', ''x'')] False (VScalar ''v'')])]) []
      = Returns (Some [], None)"
  by (simp add: field_eval entry_eval)

text \<open>
  Claim C2, amended. For an exported embedded field declared with a \<open>Filterable\<close>
  record type and with no explicit tag key, the pass of the field merges the filtered
  entries of the embedded record into the output of the parent, on the level of the
  parent. The merge never
  overwrites: a key the output already has, from a field declared earlier, keeps its
  value, and only the other keys take the promoted value. Fields are processed in
  declaration order, so the merge sees exactly the output of the fields declared before
  the embedded one.
\<close>

theorem embedded_record_promoted_first_writer_wins:
  assumes "fexported f" and "fanonymous f" and "\<not> fiface f"
    and "fvalue f = VStruct True flds"
    and "applyOpts opts = Returns fOpts" and "tg = tag fOpts"
    and "fieldName_of tg f = ''''"
  shows "filterStruct_field tg f retMap =
        (case filterStruct tg (VStruct True flds) of
           Panic \<Rightarrow> Panic
         | Returns fs \<Rightarrow> Returns (promote fs retMap))
    \<and> (\<forall>fs k. map_of (promote fs retMap) k =
          (case map_of retMap k of Some v \<Rightarrow> Some v | None \<Rightarrow> map_of fs k))
    \<and> FilterStruct (VStruct flt (pre @ f # post)) opts =
        (case filterStruct_loop tg pre [] of
           Panic \<Rightarrow> Panic
         | Returns r \<Rightarrow>
             (case filterStruct tg (VStruct True flds) of
                Panic \<Rightarrow> Panic
              | Returns fs \<Rightarrow>
                  (case filterStruct_loop tg post (promote fs r) of
                     Panic \<Rightarrow> Panic
                   | Returns out \<Rightarrow> Returns (Some out, None))))"
proof -
  have step: "filterStruct_field tg f r =
        (case filterStruct tg (VStruct True flds) of
           Panic \<Rightarrow> Panic
         | Returns fs \<Rightarrow> Returns (promote fs r))" for r
    using embedded_record_step [OF assms(1-4) assms(7), of r] assms(4) by simp
  have whole: "FilterStruct (VStruct flt (pre @ f # post)) opts =
        (case filterStruct_loop tg pre [] of
           Panic \<Rightarrow> Panic
         | Returns r \<Rightarrow>
             (case filterStruct tg (VStruct True flds) of
                Panic \<Rightarrow> Panic
              | Returns fs \<Rightarrow>
                  (case filterStruct_loop tg post (promote fs r) of
                     Panic \<Rightarrow> Panic
                   | Returns out \<Rightarrow> Returns (Some out, None))))"
    by (simp add: FilterStruct_def assms(5) assms(6) [symmetric] loop_middle step
          split: exec.splits)
  show ?thesis
    by (intro conjI allI) (rule step, rule promote_lookup, rule whole)
qed

theorem embedded_record_promoted_first_writer_wins_witness:
  "fexported (Field ''Inner'' True True [] False
      (VStruct True [Field ''Name'' True False [(''json'', ''name'')] False (VScalar ''inner''),
                     Field ''Age'' True False [(''json'', ''age'')] False (VScalar ''7'')]))
   \<and> fanonymous (Field ''Inner'' True True [] False
      (VStruct True [Field ''Name'' True False [(''json'', ''name'')] False (VScalar ''inner''),
                     Field ''Age'' True False [(''json'', ''age'')] False (VScalar ''7'')]))
   \<and> applyOpts [] = Returns defaultFilterOpts
   \<and> fieldName_of (tag defaultFilterOpts) (Field ''Inner'' True True [] False
      (VStruct True [Field ''Name'' True False [(''json'', ''name'')] False (VScalar ''inner''),
                     Field ''Age'' True False [(''json'', ''age'')] False (VScalar ''7'')])) = ''''
   \<and> FilterStruct
        (VStruct False
           [Field ''Name'' True False [(''json'', ''name'')] False (VScalar ''outer''),
            Field ''Inner'' True True [] False
              (VStruct True
                 [Field ''Name'' True False [(''json'', ''name'')] False (VScalar ''inner''),
                  Field ''Age'' True False [(''json'', ''age'')] False (VScalar ''7'')])]) []
      = Returns (Some [(''name'', VScalar ''outer''), (''age'', VScalar ''7'')], None)"
proof -
  let ?flds = "[Field ''Name'' True False [(''json'', ''name'')] False (VScalar ''inner''),
                Field ''Age'' True False [(''json'', ''age'')] False (VScalar ''7'')]"
  let ?f = "Field ''Inner'' True True [] False (VStruct True ?flds)"
  have opts: "applyOpts [] = Returns defaultFilterOpts"
    by (simp add: applyOpts_def)
  have tg: "''json'' = tag defaultFilterOpts"
    by (simp add: defaultFilterOpts_def)
  have hyps: "fexported ?f" "fanonymous ?f" "\<not> fiface ?f" "fvalue ?f = VStruct True ?flds"
    by simp_all
  have name: "fieldName_of ''json'' ?f = ''''"
    by (simp add: field_eval)
  have "FilterStruct
        (VStruct False
           ([Field ''Name'' True False [(''json'', ''name'')] False (VScalar ''outer'')] @ ?f # [])) []
      = Returns (Some [(''name'', VScalar ''outer''), (''age'', VScalar ''7'')], None)"
    using embedded_record_promoted_first_writer_wins
      [where pre = "[Field ''Name'' True False [(''json'', ''name'')] False (VScalar ''outer'')]"
          and post = "[]" and flt = False,
        OF hyps opts tg name, THEN conjunct2, THEN conjunct2]
    by (simp add: field_eval)
  then show ?thesis
    using hyps name opts tg [symmetric] by simp
qed

section \<open>Tag switching\<close>

lemma UseTag_empty_is_default: "applyOpts [UseTag ''''] = Returns defaultFilterOpts"
  by (simp add: applyOpts_def UseTag_def)

lemma UseTag_custom: "t \<noteq> '''' \<Longrightarrow> applyOpts [UseTag t] = Returns \<lparr>tag = t\<rparr>"
  by (simp add: applyOpts_def UseTag_def defaultFilterOpts_def)

lemma untagged_plain_field_stores_nothing:
  "\<not> fanonymous f \<Longrightarrow> map_of (ftag f) tg = None \<Longrightarrow> filterStruct_field tg f r = Returns r"
  by (cases f) (simp add: skipped_def Lookup_def)

text \<open>
  Claim C6 says that with \<open>UseTag(name)\<close> a field lacking a tag entry under the custom
  name contributes no key, even when it carries the default \<open>json\<close> tag. That holds
  for a field that is not embedded (\<open>untagged_plain_field_stores_nothing\<close>), and the
  empty name selects the default tag (\<open>UseTag_empty_is_default\<close>). It fails for an
  embedded container: the record \<open>struct { Var[string] `json:"name"` }\<close> with the
  container set to \<open>p\<close>, filtered under the tag \<open>custom\<close>, has no entry under
  \<open>custom\<close>, and the output holds the payload under the empty key. The branch for a
  record that is neither \<open>Filterable\<close> nor a container stores only under a non-empty
  key; the branch for a container lacks that guard.
\<close>

theorem untagged_embedded_container_yields_empty_key:
  "FilterStruct
     (VStruct False
        [Field ''Var'' True True [(''json'', ''name'')] False
           (VVar (Var True True (VScalar ''p'')))])
     [UseTag ''custom'']
   = Returns (Some [('''', VScalar ''p'')], None)"
  by (simp add: field_eval entry_eval)

section \<open>One pass of a loop\<close>

lemma field_unfold:
  "filterStruct_field tg f r =
     (if skipped tg f then Returns r
      else if fieldKind f = Struct then
        (if implFilterable (fvalue f) then
           (case filterStruct tg (fvalue f) of
              Panic \<Rightarrow> Panic
            | Returns fs \<Rightarrow>
                if fanonymous f \<and> fieldName_of tg f = '''' then Returns (promote fs r)
                else if fs = [] then Returns r
                else Returns (AList.update (fieldName_of tg f) (VMap (Some fs)) r))
         else (case asNullVar (fvalue f) of
                 Some Panic \<Rightarrow> Panic
               | Some (Returns nv) \<Rightarrow>
                   if isSet nv then Returns (AList.update (fieldName_of tg f) (getVal nv) r)
                   else Returns r
               | None \<Rightarrow>
                   if fieldName_of tg f \<noteq> ''''
                   then Returns (AList.update (fieldName_of tg f) (fvalue f) r)
                   else Returns r))
      else if fieldKind f = Map then
        (case asMap (fvalue f) of
           Some t \<Rightarrow>
             (case filterMap t of
                Panic \<Rightarrow> Panic
              | Returns fm \<Rightarrow>
                  if fm = [] then Returns r
                  else Returns (AList.update (fieldName_of tg f) (VMap (Some fm)) r))
         | None \<Rightarrow> Returns (AList.update (fieldName_of tg f) (fvalue f) r))
      else Returns (AList.update (fieldName_of tg f) (fvalue f) r))"
proof (cases f)
  case (Field nm ex an tags ifc v)
  show ?thesis
    unfolding Field
    by (cases "fieldKind (Field nm ex an tags ifc v)")
       (simp_all split: exec.splits option.splits)
qed

lemma field_shape:
  "(\<forall>r. filterStruct_field tg f r = Panic)
   \<or> (\<forall>r. filterStruct_field tg f r = Returns r)
   \<or> (\<exists>n x. \<forall>r. filterStruct_field tg f r = Returns (AList.update n x r))
   \<or> (\<exists>fs. \<forall>r. filterStruct_field tg f r = Returns (promote fs r))"
proof (cases "skipped tg f")
  case True
  then have "\<forall>r. filterStruct_field tg f r = Returns r"
    by (auto simp: field_unfold)
  then show ?thesis by blast
next
  case ns: False
  show ?thesis
  proof (cases "fieldKind f = Struct")
    case st: True
    show ?thesis
    proof (cases "implFilterable (fvalue f)")
      case flt: True
      show ?thesis
      proof (cases "filterStruct tg (fvalue f)")
        case Panic
        with ns st flt have "\<forall>r. filterStruct_field tg f r = Panic"
          by (auto simp: field_unfold)
        then show ?thesis by blast
      next
        case (Returns fs)
        show ?thesis
        proof (cases "fanonymous f \<and> fieldName_of tg f = ''''")
          case True
          with ns st flt Returns
          have "\<forall>r. filterStruct_field tg f r = Returns (promote fs r)"
            by (auto simp: field_unfold)
          then show ?thesis by blast
        next
          case own: False
          show ?thesis
          proof (cases "fs = []")
            case True
            with ns st flt Returns own have "\<forall>r. filterStruct_field tg f r = Returns r"
              by (auto simp: field_unfold)
            then show ?thesis by blast
          next
            case False
            with ns st flt Returns own
            have "\<forall>r. filterStruct_field tg f r =
                    Returns (AList.update (fieldName_of tg f) (VMap (Some fs)) r)"
              by (auto simp: field_unfold)
            then show ?thesis by blast
          qed
        qed
      qed
    next
      case nflt: False
      have "(\<forall>r. filterStruct_field tg f r = Panic)
          \<or> (\<forall>r. filterStruct_field tg f r = Returns r)
          \<or> (\<exists>x. \<forall>r. filterStruct_field tg f r = Returns (AList.update (fieldName_of tg f) x r))"
        using ns st nflt by (auto simp: field_unfold split: option.splits exec.splits)
      then show ?thesis by blast
    qed
  next
    case nst: False
    have "(\<forall>r. filterStruct_field tg f r = Panic)
        \<or> (\<forall>r. filterStruct_field tg f r = Returns r)
        \<or> (\<exists>x. \<forall>r. filterStruct_field tg f r = Returns (AList.update (fieldName_of tg f) x r))"
      using ns nst
      by (cases "fieldKind f = Map")
         (auto simp: field_unfold split: option.splits exec.splits)
    then show ?thesis by blast
  qed
qed

lemma keys_lookup: "k \<in> keys m \<longleftrightarrow> map_of m k \<noteq> None"
  by (simp add: keys_def map_of_eq_None_iff)

lemma promote_empty_lookup: "map_of (promote fs []) k = map_of fs k"
  by (simp add: promote_lookup)

lemma field_untouched:
  assumes "filterStruct_field tg f r = Returns r'" and "k \<notin> field_keys tg f"
  shows "map_of r' k = map_of r k"
proof -
  consider (panic) "\<forall>r. filterStruct_field tg f r = Panic"
    | (keep) "\<forall>r. filterStruct_field tg f r = Returns r"
    | (store) n x where "\<forall>r. filterStruct_field tg f r = Returns (AList.update n x r)"
    | (prom) fs where "\<forall>r. filterStruct_field tg f r = Returns (promote fs r)"
    using field_shape [of tg f] by blast
  then show ?thesis
  proof cases
    case panic
    with assms(1) show ?thesis by simp
  next
    case keep
    with assms(1) show ?thesis by simp
  next
    case store
    then have "field_keys tg f = {n}"
      by (simp add: field_keys_def keys_def)
    with assms(2) have "k \<noteq> n" by simp
    moreover from store assms(1) have "r' = AList.update n x r" by simp
    ultimately show ?thesis by (simp add: update_conv')
  next
    case prom
    then have "field_keys tg f = keys (promote fs [])"
      by (simp add: field_keys_def)
    with assms(2) have "map_of fs k = None"
      by (simp add: keys_lookup promote_empty_lookup)
    moreover from prom assms(1) have "r' = promote fs r" by simp
    ultimately show ?thesis by (simp add: promote_lookup split: option.splits)
  qed
qed

lemma struct_untouched:
  "filterStruct_loop tg fs r = Returns out \<Longrightarrow> \<forall>g\<in>set fs. k \<notin> field_keys tg g \<Longrightarrow>
     map_of out k = map_of r k"
proof (induction fs arbitrary: r)
  case Nil
  then show ?case by simp
next
  case (Cons g fs)
  from Cons.prems(1) obtain r1 where r1: "filterStruct_field tg g r = Returns r1"
    and rest: "filterStruct_loop tg fs r1 = Returns out"
    by (auto split: exec.splits)
  from r1 Cons.prems(2) have "map_of r1 k = map_of r k"
    by (simp add: field_untouched)
  moreover from Cons.IH [OF rest] Cons.prems(2) have "map_of out k = map_of r1 k"
    by simp
  ultimately show ?case by simp
qed

lemma map_loop_Cons:
  "filterMap_loop ((k, v) # m) r =
     (case filterMap_loop [(k, v)] r of Panic \<Rightarrow> Panic | Returns r' \<Rightarrow> filterMap_loop m r')"
  by (simp split: option.splits exec.splits)

lemma map_loop_append:
  "filterMap_loop (xs @ ys) r =
     (case filterMap_loop xs r of Panic \<Rightarrow> Panic | Returns r' \<Rightarrow> filterMap_loop ys r')"
proof (induction xs arbitrary: r)
  case Nil
  then show ?case by simp
next
  case (Cons e xs)
  obtain k v where e: "e = (k, v)" by (cases e)
  show ?case
    unfolding e append_Cons
    by (subst map_loop_Cons, subst (2) map_loop_Cons) (simp add: Cons.IH split: exec.splits)
qed

lemma map_pass:
  "filterMap_loop [(k, v)] r = Returns r' \<Longrightarrow> r' = r \<or> (\<exists>x. r' = AList.update k x r)"
  by (auto split: option.splits exec.splits if_splits)

lemma map_untouched:
  "filterMap_loop m r = Returns out \<Longrightarrow> k \<notin> fst ` set m \<Longrightarrow> map_of out k = map_of r k"
proof (induction m arbitrary: r)
  case Nil
  then show ?case by simp
next
  case (Cons e m)
  obtain k' v where e: "e = (k', v)" by (cases e)
  from Cons.prems(1) obtain r1 where r1: "filterMap_loop [(k', v)] r = Returns r1"
    and rest: "filterMap_loop m r1 = Returns out"
    unfolding e by (subst (asm) map_loop_Cons) (auto split: exec.splits)
  from Cons.prems(2) e have ne: "k \<noteq> k'" and "k \<notin> fst ` set m" by auto
  with Cons.IH [OF rest] have "map_of out k = map_of r1 k" by simp
  moreover from map_pass [OF r1] ne have "map_of r1 k = map_of r k"
    by (auto simp: update_conv')
  ultimately show ?case by simp
qed

section \<open>Containers met by filtering\<close>

lemma tagged_container_step:
  assumes "fexported f" and "\<not> fiface f" and "fvalue f = VVar c"
    and "fieldName_of tg f = k" and "k \<noteq> ''''" and "k \<noteq> ''-''"
  shows "filterStruct_field tg f r =
           Returns (if set_v c then AList.update k (getVal c) r else r)"
proof -
  have "snd (Lookup (ftag f) tg)"
    using assms(4,5) by (auto simp: fieldName_of_def Lookup_def split: option.splits)
  with assms have "\<not> skipped tg f"
    by (simp add: skipped_def fieldKind_def)
  with assms show ?thesis
    by (simp add: field_unfold fieldKind_def isSet_def)
qed

lemma map_container_lookup:
  assumes "distinct (map fst m)" and "(k, VVar c) \<in> set m"
    and "filterMap_loop m [] = Returns out"
  shows "map_of out k = (if set_v c then Some (getVal c) else None)"
proof -
  from assms(2) obtain pre post where m: "m = pre @ (k, VVar c) # post"
    by (auto dest: split_list)
  with assms(1) have fresh: "k \<notin> fst ` set pre" "k \<notin> fst ` set post"
    by auto
  from assms(3) obtain r1 where r1: "filterMap_loop pre [] = Returns r1"
    and rest: "filterMap_loop ((k, VVar c) # post) r1 = Returns out"
    unfolding m by (subst (asm) map_loop_append) (auto split: exec.splits)
  let ?r2 = "if set_v c then AList.update k (getVal c) r1 else r1"
  from rest have post: "filterMap_loop post ?r2 = Returns out"
    by (simp add: isSet_def split: if_splits)
  from map_untouched [OF r1 fresh(1)] have "map_of r1 k = None"
    by simp
  then have "map_of ?r2 k = (if set_v c then Some (getVal c) else None)"
    by (simp add: update_conv')
  with map_untouched [OF post fresh(2)] show ?thesis
    by simp
qed

lemma struct_container_lookup:
  assumes "fexported f" and "\<not> fiface f" and "fvalue f = VVar c"
    and "fieldName_of tg f = k" and "k \<noteq> ''''" and "k \<noteq> ''-''"
    and "\<forall>g\<in>set (pre @ post). k \<notin> field_keys tg g"
    and "filterStruct_loop tg (pre @ f # post) [] = Returns out"
  shows "map_of out k = (if set_v c then Some (getVal c) else None)"
proof -
  let ?upd = "\<lambda>r. if set_v c then AList.update k (getVal c) r else r"
  from assms(8) obtain r1 where r1: "filterStruct_loop tg pre [] = Returns r1"
    and post: "filterStruct_loop tg post (?upd r1) = Returns out"
    by (auto simp: loop_middle tagged_container_step [OF assms(1-6)] split: exec.splits)
  from assms(7) have pre_free: "\<forall>g\<in>set pre. k \<notin> field_keys tg g"
    and post_free: "\<forall>g\<in>set post. k \<notin> field_keys tg g"
    by auto
  from struct_untouched [OF r1 pre_free] have "map_of r1 k = None"
    by simp
  then have "map_of (?upd r1) k = (if set_v c then Some (getVal c) else None)"
    by (simp add: update_conv')
  with struct_untouched [OF post post_free] show ?thesis
    by simp
qed

text \<open>
  Claim C1 as stated says that the output of \<open>FilterStruct\<close> contains the key of a
  tagged container field if and only if the container is set. Another field can store
  the same key. In the record below the container \<open>X\<close>, tagged \<open>x\<close>, is unset; the
  embedded \<open>Filterable\<close> record declared after it has a field tagged \<open>x\<close> too, which is
  promoted because the key is still free. The output contains \<open>x\<close>.
\<close>

theorem unset_container_key_present_counterexample:
  "FilterStruct
     (VStruct False
        [Field ''X'' True False [(''json'', ''x'')] False (VVar (Var False False (VScalar ''''))),
         Field ''Inner'' True True [] False
           (VStruct True
              [Field ''X'' True False [(''json'', ''x'')] False (VScalar ''inner'')])]) []
     = Returns (Some [(''x'', VScalar ''inner'')], None)
   \<and> ''x'' \<in> keys [(''x'', VScalar ''inner'')]
   \<and> \<not> set_v (Var False False (VScalar ''''))"
  by (simp add: field_eval entry_eval keys_def)

text \<open>
  Claim C1, amended. For a container that is the value of an entry of the mapping
  passed to \<open>FilterMap\<close> (a Go map: its keys are distinct), and for a container that
  is the value of an exported field passed to \<open>FilterStruct\<close>, declared with the
  container type and carrying the configured tag with a key that is neither empty nor
  \<open>-\<close>, provided no other field of the record yields that key when it is filtered on
  its own: the output mapping contains the key if and only if the set flag is true, and
  then its value is the payload if the container is valid and nil if it is set but
  invalid.
\<close>

theorem set_container_is_emitted:
  "(distinct (map fst m) \<and> (k, VVar c) \<in> set m
      \<and> FilterMap (Some m) = Returns (Some out, None)
    \<longrightarrow> (k \<in> keys out \<longleftrightarrow> set_v c)
       \<and> (set_v c \<longrightarrow> map_of out k = Some (if valid_v c then value_v c else VNil)))
   \<and> (fexported f \<and> \<not> fiface f \<and> fvalue f = VVar c'
      \<and> applyOpts opts = Returns fOpts \<and> tg = tag fOpts \<and> map_of (ftag f) tg \<noteq> None
      \<and> fieldName_of tg f = k' \<and> k' \<noteq> '''' \<and> k' \<noteq> ''-''
      \<and> (\<forall>g\<in>set (pre @ post). k' \<notin> field_keys tg g)
      \<and> FilterStruct (VStruct flt (pre @ f # post)) opts = Returns (Some out', None)
    \<longrightarrow> (k' \<in> keys out' \<longleftrightarrow> set_v c')
       \<and> (set_v c' \<longrightarrow> map_of out' k' = Some (if valid_v c' then value_v c' else VNil)))"
proof -
  have in_map: "(k \<in> keys out \<longleftrightarrow> set_v c)
       \<and> (set_v c \<longrightarrow> map_of out k = Some (if valid_v c then value_v c else VNil))"
    if m: "distinct (map fst m)" "(k, VVar c) \<in> set m"
      and run: "FilterMap (Some m) = Returns (Some out, None)"
  proof -
    from run have "filterMap_loop m [] = Returns out"
      by (auto simp: FilterMap_def split: exec.splits)
    with m have "map_of out k = (if set_v c then Some (getVal c) else None)"
      by (rule map_container_lookup)
    then show ?thesis
      by (simp add: keys_lookup getVal_def)
  qed
  have in_struct: "(k' \<in> keys out' \<longleftrightarrow> set_v c')
       \<and> (set_v c' \<longrightarrow> map_of out' k' = Some (if valid_v c' then value_v c' else VNil))"
    if f: "fexported f" "\<not> fiface f" "fvalue f = VVar c'"
      "fieldName_of tg f = k'" "k' \<noteq> []" "k' \<noteq> ''-''"
      "\<forall>g\<in>set (pre @ post). k' \<notin> field_keys tg g"
      and tg: "applyOpts opts = Returns fOpts" "tg = tag fOpts"
      and run: "FilterStruct (VStruct flt (pre @ f # post)) opts = Returns (Some out', None)"
  proof -
    from run have "filterStruct_loop tg (pre @ f # post) [] = Returns out'"
      by (simp add: FilterStruct_def tg(1) tg(2) [symmetric] split: exec.splits)
    with f have "map_of out' k' = (if set_v c' then Some (getVal c') else None)"
      by (rule struct_container_lookup)
    then show ?thesis
      by (simp add: keys_lookup getVal_def)
  qed
  show ?thesis
  proof (intro conjI)
    show "distinct (map fst m) \<and> (k, VVar c) \<in> set m
      \<and> FilterMap (Some m) = Returns (Some out, None)
      \<longrightarrow> (k \<in> keys out \<longleftrightarrow> set_v c)
       \<and> (set_v c \<longrightarrow> map_of out k = Some (if valid_v c then value_v c else VNil))"
      using in_map by blast
    show "fexported f \<and> \<not> fiface f \<and> fvalue f = VVar c'
      \<and> applyOpts opts = Returns fOpts \<and> tg = tag fOpts \<and> map_of (ftag f) tg \<noteq> None
      \<and> fieldName_of tg f = k' \<and> k' \<noteq> [] \<and> k' \<noteq> ''-''
      \<and> (\<forall>g\<in>set (pre @ post). k' \<notin> field_keys tg g)
      \<and> FilterStruct (VStruct flt (pre @ f # post)) opts = Returns (Some out', None)
      \<longrightarrow> (k' \<in> keys out' \<longleftrightarrow> set_v c')
       \<and> (set_v c' \<longrightarrow> map_of out' k' = Some (if valid_v c' then value_v c' else VNil))"
      using in_struct by blast
  qed
qed

theorem set_container_is_emitted_witness:
  "distinct (map fst [(''a'', VVar (Var True False (VScalar ''''))),
                      (''c'', VVar (Var False False (VScalar '''')))])
   \<and> (''a'', VVar (Var True False (VScalar '''')))
        \<in> set [(''a'', VVar (Var True False (VScalar ''''))),
                (''c'', VVar (Var False False (VScalar '''')))]
   \<and> FilterMap (Some [(''a'', VVar (Var True False (VScalar ''''))),
                      (''c'', VVar (Var False False (VScalar '''')))])
       = Returns (Some [(''a'', VNil)], None)
   \<and> ''a'' \<in> keys [(''a'', VNil)]
   \<and> map_of [(''a'', VNil)] ''a'' = Some VNil
   \<and> ''b'' \<notin> field_keys ''json''
         (Field ''A'' True False [(''json'', ''a'')] False (VScalar ''1''))
   \<and> FilterStruct
        (VStruct False
           [Field ''A'' True False [(''json'', ''a'')] False (VScalar ''1''),
            Field ''B'' True False [(''json'', ''b'')] False
              (VVar (Var True True (VScalar ''v'')))]) []
       = Returns (Some [(''a'', VScalar ''1''), (''b'', VScalar ''v'')], None)
   \<and> ''b'' \<in> keys [(''a'', VScalar ''1''), (''b'', VScalar ''v'')]
   \<and> map_of [(''a'', VScalar ''1''), (''b'', VScalar ''v'')] ''b'' = Some (VScalar ''v'')"
proof -
  let ?m = "[(''a'', VVar (Var True False (VScalar ''''))),
             (''c'', VVar (Var False False (VScalar '''')))]"
  let ?A = "Field ''A'' True False [(''json'', ''a'')] False (VScalar ''1'')"
  let ?B = "Field ''B'' True False [(''json'', ''b'')] False
              (VVar (Var True True (VScalar ''v'')))"
  have m: "distinct (map fst ?m) \<and> (''a'', VVar (Var True False (VScalar ''''))) \<in> set ?m
      \<and> FilterMap (Some ?m) = Returns (Some [(''a'', VNil)], None)"
    by (simp add: field_eval entry_eval)
  have free: "''b'' \<notin> field_keys ''json'' ?A"
    by (simp add: field_keys_def keys_def field_eval)
  have run: "FilterStruct (VStruct False ([?A] @ ?B # [])) []
      = Returns (Some [(''a'', VScalar ''1''), (''b'', VScalar ''v'')], None)"
    by (simp add: field_eval entry_eval)
  have s: "fexported ?B \<and> \<not> fiface ?B \<and> fvalue ?B = VVar (Var True True (VScalar ''v''))
      \<and> applyOpts [] = Returns defaultFilterOpts \<and> ''json'' = tag defaultFilterOpts
      \<and> map_of (ftag ?B) ''json'' \<noteq> None
      \<and> fieldName_of ''json'' ?B = ''b'' \<and> ''b'' \<noteq> '''' \<and> ''b'' \<noteq> ''-''
      \<and> (\<forall>g\<in>set ([?A] @ []). ''b'' \<notin> field_keys ''json'' g)
      \<and> FilterStruct (VStruct False ([?A] @ ?B # [])) []
          = Returns (Some [(''a'', VScalar ''1''), (''b'', VScalar ''v'')], None)"
    using free run by (simp add: field_eval applyOpts_def defaultFilterOpts_def)
  from set_container_is_emitted [THEN conjunct1, THEN mp, OF m]
  have "''a'' \<in> keys [(''a'', VNil)] \<and> map_of [(''a'', VNil)] ''a'' = Some VNil"
    by simp
  moreover from set_container_is_emitted [THEN conjunct2, THEN mp, OF s]
  have "''b'' \<in> keys [(''a'', VScalar ''1''), (''b'', VScalar ''v'')]
      \<and> map_of [(''a'', VScalar ''1''), (''b'', VScalar ''v'')] ''b'' = Some (VScalar ''v'')"
    by simp
  ultimately show ?thesis
    using m free run by simp
qed

section \<open>Nested values that filter to nothing\<close>

lemma empty_record_step:
  assumes "fvalue f = VStruct True flds" and "\<not> fiface f"
    and "\<not> (fanonymous f \<and> fieldName_of tg f = '''')"
    and "filterStruct tg (VStruct True flds) = Returns []"
  shows "filterStruct_field tg f r = Returns r"
  using assms by (auto simp: field_unfold fieldKind_def)

lemma empty_map_entry_step:
  "filterMap val = Returns [] \<Longrightarrow> filterMap_loop [(k, VMap val)] r = Returns r"
  by simp

lemma loop_without_field:
  "(\<And>r. filterStruct_field tg f r = Returns r) \<Longrightarrow>
     filterStruct_loop tg (pre @ f # post) r = filterStruct_loop tg (pre @ post) r"
  by (simp add: loop_middle loop_append split: exec.splits)

lemma map_loop_without_entry:
  assumes "\<And>r. filterMap_loop [(k, v)] r = Returns r"
  shows "filterMap_loop (pre @ (k, v) # post) r = filterMap_loop (pre @ post) r"
proof -
  have "filterMap_loop ((k, v) # post) r' = filterMap_loop post r'" for r'
    by (subst map_loop_Cons) (simp only: assms exec.simps)
  then show ?thesis
    by (simp add: map_loop_append split: exec.splits)
qed

text \<open>
  Claim C5 as stated says that the key of a nested record that filters to an empty
  mapping is omitted entirely from the output of the parent. The field stores nothing,
  but another field can store the same key. In the record below the field \<open>S\<close>, tagged
  \<open>s\<close>, holds a \<open>Filterable\<close> record that filters to the empty mapping; the embedded
  \<open>Filterable\<close> record declared after it promotes a field tagged \<open>s\<close>. The output
  contains \<open>s\<close>.
\<close>

theorem empty_record_key_present_counterexample:
  "filterStruct ''json''
     (VStruct True [Field ''N'' True False [] False (VScalar ''n'')]) = Returns []
   \<and> FilterStruct
       (VStruct False
          [Field ''S'' True False [(''json'', ''s'')] False
             (VStruct True [Field ''N'' True False [] False (VScalar ''n'')]),
           Field ''Inner'' True True [] False
             (VStruct True
                [Field ''S'' True False [(''json'', ''s'')] False (VScalar ''v'')])]) []
       = Returns (Some [(''s'', VScalar ''v'')], None)
   \<and> ''s'' \<in> keys [(''s'', VScalar ''v'')]"
  by (simp add: field_eval entry_eval keys_def)

text \<open>
  Claim C5, amended. A field of a \<open>Filterable\<close> record type that would be emitted
  under its own key (not embedded, or embedded with an explicit key), and an entry of a
  mapping whose value is a string-to-any mapping, contribute nothing when the recursive
  filtering of the value yields an empty mapping: the pass leaves the output as it is,
  and the result of the parent is the result it has without that field or entry, at
  every depth of the recursion. So the key is absent from the output of the parent
  unless another field yields it; in a mapping, whose keys are distinct, it is absent.
\<close>

theorem empty_nested_contributes_nothing:
  "(fvalue f = VStruct True flds \<and> \<not> fiface f
      \<and> \<not> (fanonymous f \<and> fieldName_of tg f = '''')
      \<and> filterStruct tg (VStruct True flds) = Returns []
    \<longrightarrow> filterStruct_field tg f r = Returns r
       \<and> filterStruct tg (VStruct flt (pre @ f # post)) = filterStruct tg (VStruct flt (pre @ post))
       \<and> ((\<forall>g\<in>set (pre @ post). fieldName_of tg f \<notin> field_keys tg g)
            \<and> filterStruct tg (VStruct flt (pre @ f # post)) = Returns out
          \<longrightarrow> fieldName_of tg f \<notin> keys out))
   \<and> (filterMap val = Returns []
    \<longrightarrow> filterMap_loop [(k, VMap val)] r' = Returns r'
       \<and> filterMap (Some (mpre @ (k, VMap val) # mpost)) = filterMap (Some (mpre @ mpost))
       \<and> (distinct (map fst (mpre @ (k, VMap val) # mpost))
            \<and> filterMap (Some (mpre @ (k, VMap val) # mpost)) = Returns out'
          \<longrightarrow> k \<notin> keys out'))"
proof -
  have in_struct: "filterStruct_field tg f r = Returns r
       \<and> filterStruct tg (VStruct flt (pre @ f # post)) = filterStruct tg (VStruct flt (pre @ post))
       \<and> ((\<forall>g\<in>set (pre @ post). fieldName_of tg f \<notin> field_keys tg g)
            \<and> filterStruct tg (VStruct flt (pre @ f # post)) = Returns out
          \<longrightarrow> fieldName_of tg f \<notin> keys out)"
    if f: "fvalue f = VStruct True flds" "\<not> fiface f"
      "\<not> (fanonymous f \<and> fieldName_of tg f = '''')"
      "filterStruct tg (VStruct True flds) = Returns []"
  proof -
    have step: "filterStruct_field tg f r = Returns r" for r
      using f by (rule empty_record_step)
    have without: "filterStruct tg (VStruct flt (pre @ f # post))
        = filterStruct tg (VStruct flt (pre @ post))"
      by (simp add: loop_without_field [OF step])
    have "fieldName_of tg f \<notin> keys out"
      if free: "\<forall>g\<in>set (pre @ post). fieldName_of tg f \<notin> field_keys tg g"
        and run: "filterStruct tg (VStruct flt (pre @ f # post)) = Returns out"
    proof -
      from run without have "filterStruct_loop tg (pre @ post) [] = Returns out"
        by simp
      from struct_untouched [OF this free] show ?thesis
        by (simp add: keys_lookup)
    qed
    with step without show ?thesis by blast
  qed
  have in_map: "filterMap_loop [(k, VMap val)] r' = Returns r'
       \<and> filterMap (Some (mpre @ (k, VMap val) # mpost)) = filterMap (Some (mpre @ mpost))
       \<and> (distinct (map fst (mpre @ (k, VMap val) # mpost))
            \<and> filterMap (Some (mpre @ (k, VMap val) # mpost)) = Returns out'
          \<longrightarrow> k \<notin> keys out')"
    if v: "filterMap val = Returns []"
  proof -
    have step: "filterMap_loop [(k, VMap val)] r = Returns r" for r
      using v by (rule empty_map_entry_step)
    have without: "filterMap (Some (mpre @ (k, VMap val) # mpost)) = filterMap (Some (mpre @ mpost))"
      by (simp add: map_loop_without_entry [OF step])
    have "k \<notin> keys out'"
      if d: "distinct (map fst (mpre @ (k, VMap val) # mpost))"
        and run: "filterMap (Some (mpre @ (k, VMap val) # mpost)) = Returns out'"
    proof -
      from run without have loop: "filterMap_loop (mpre @ mpost) [] = Returns out'"
        by simp
      from d have "k \<notin> fst ` set (mpre @ mpost)"
        by auto
      from map_untouched [OF loop this] show ?thesis
        by (simp add: keys_lookup)
    qed
    with step without show ?thesis by blast
  qed
  show ?thesis
  proof (intro conjI)
    show "fvalue f = VStruct True flds \<and> \<not> fiface f
      \<and> \<not> (fanonymous f \<and> fieldName_of tg f = [])
      \<and> filterStruct tg (VStruct True flds) = Returns []
      \<longrightarrow> filterStruct_field tg f r = Returns r
       \<and> filterStruct tg (VStruct flt (pre @ f # post)) = filterStruct tg (VStruct flt (pre @ post))
       \<and> ((\<forall>g\<in>set (pre @ post). fieldName_of tg f \<notin> field_keys tg g)
            \<and> filterStruct tg (VStruct flt (pre @ f # post)) = Returns out
          \<longrightarrow> fieldName_of tg f \<notin> keys out)"
      using in_struct by blast
    show "filterMap val = Returns []
      \<longrightarrow> filterMap_loop [(k, VMap val)] r' = Returns r'
       \<and> filterMap (Some (mpre @ (k, VMap val) # mpost)) = filterMap (Some (mpre @ mpost))
       \<and> (distinct (map fst (mpre @ (k, VMap val) # mpost))
            \<and> filterMap (Some (mpre @ (k, VMap val) # mpost)) = Returns out'
          \<longrightarrow> k \<notin> keys out')"
      using in_map by blast
  qed
qed

theorem empty_nested_contributes_nothing_witness:
  "filterStruct ''json'' (VStruct True [Field ''N'' True False [] False (VScalar ''n'')])
     = Returns []
   \<and> filterStruct ''json''
       (VStruct False
          [Field ''S'' True False [(''json'', ''s'')] False
             (VStruct True [Field ''N'' True False [] False (VScalar ''n'')]),
           Field ''B'' True False [(''json'', ''b'')] False (VScalar ''1'')])
     = Returns [(''b'', VScalar ''1'')]
   \<and> ''s'' \<notin> keys [(''b'', VScalar ''1'')]
   \<and> filterMap (Some [(''a'', VVar (Var False False (VScalar '''')))]) = Returns []
   \<and> filterMap (Some [(''g'', VMap (Some [(''a'', VVar (Var False False (VScalar '''')))])),
                      (''d'', VScalar ''D'')])
     = Returns [(''d'', VScalar ''D'')]
   \<and> ''g'' \<notin> keys [(''d'', VScalar ''D'')]"
proof -
  let ?N = "[Field ''N'' True False [] False (VScalar ''n'')]"
  let ?S = "Field ''S'' True False [(''json'', ''s'')] False (VStruct True ?N)"
  let ?B = "Field ''B'' True False [(''json'', ''b'')] False (VScalar ''1'')"
  let ?inner = "Some [(''a'', VVar (Var False False (VScalar '''')))]"
  have s: "fvalue ?S = VStruct True ?N \<and> \<not> fiface ?S
      \<and> \<not> (fanonymous ?S \<and> fieldName_of ''json'' ?S = '''')
      \<and> filterStruct ''json'' (VStruct True ?N) = Returns []"
    by (simp add: field_eval)
  have m: "filterMap ?inner = Returns []"
    by (simp add: field_eval)
  note st = empty_nested_contributes_nothing
      [where pre = "[]" and post = "[?B]" and flt = False and out = "[(''b'', VScalar ''1'')]",
        THEN conjunct1, THEN mp, OF s]
  note mp = empty_nested_contributes_nothing
      [where mpre = "[]" and mpost = "[(''d'', VScalar ''D'')]" and k = "''g''"
        and out' = "[(''d'', VScalar ''D'')]",
        THEN conjunct2, THEN mp, OF m]
  have "filterStruct ''json'' (VStruct False [?S, ?B]) = Returns [(''b'', VScalar ''1'')]
      \<and> ''s'' \<notin> keys [(''b'', VScalar ''1'')]"
    using st by (simp add: field_eval field_keys_def keys_def)
  moreover have "filterMap (Some [(''g'', VMap ?inner), (''d'', VScalar ''D'')])
        = Returns [(''d'', VScalar ''D'')]
      \<and> ''g'' \<notin> keys [(''d'', VScalar ''D'')]"
    using mp by (simp add: field_eval keys_def)
  ultimately show ?thesis
    using s m by simp
qed

section \<open>Errors, panics and results of the entry points\<close>

lemma asMap_Some: "asMap v = Some val \<longleftrightarrow> v = VMap val"
  by (cases v) auto

lemma applyOpts_loop_returns:
  "None \<notin> set opts \<Longrightarrow> \<exists>fOpts'. applyOpts_loop opts fOpts = Returns fOpts'"
proof (induction opts arbitrary: fOpts)
  case Nil
  then show ?case by simp
next
  case (Cons opt opts)
  then show ?case by (cases opt) simp_all
qed

lemma filterMap_returns:
  shows "no_nil_ptr (VMap mo) \<longrightarrow> (\<exists>out. filterMap mo = Returns out)"
    and "no_nil_ptr_entries m \<longrightarrow> (\<exists>out. filterMap_loop m r = Returns out)"
proof (induction mo and m r rule: filterMap_filterMap_loop.induct)
  case (4 k v m retMap)
  show ?case
  proof
    assume ok: "no_nil_ptr_entries ((k, v) # m)"
    then have np: "asNullVar v \<noteq> Some Panic" and v: "no_nil_ptr v"
      and rest: "no_nil_ptr_entries m"
      by simp_all
    show "\<exists>out. filterMap_loop ((k, v) # m) retMap = Returns out"
    proof (cases "asNullVar v")
      case nv: None
      show ?thesis
      proof (cases "asMap v")
        case None
        with "4.IH" nv rest have "\<exists>out. filterMap_loop m (AList.update k v retMap) = Returns out"
          by blast
        with nv None show ?thesis by simp
      next
        case (Some val)
        then have "v = VMap val" by (simp add: asMap_Some)
        with v "4.IH" nv Some obtain mm where mm: "filterMap val = Returns mm"
          by blast
        show ?thesis
        proof (cases "length mm = 0")
          case True
          with "4.IH" nv Some mm rest have "\<exists>out. filterMap_loop m retMap = Returns out"
            by blast
          with nv Some mm True show ?thesis by simp
        next
          case False
          with "4.IH" nv Some mm rest
          have "\<exists>out. filterMap_loop m (AList.update k (VMap (Some mm)) retMap) = Returns out"
            by blast
          with nv Some mm False show ?thesis by simp
        qed
      qed
    next
      case (Some e)
      with np obtain val where val: "asNullVar v = Some (Returns val)"
        by (cases e) simp_all
      show ?thesis
      proof (cases "isSet val")
        case True
        with "4.IH" val rest
        have "\<exists>out. filterMap_loop m (AList.update k (getVal val) retMap) = Returns out"
          by blast
        with val True show ?thesis by simp
      next
        case False
        with "4.IH" val rest have "\<exists>out. filterMap_loop m retMap = Returns out"
          by blast
        with val False show ?thesis by simp
      qed
    qed
  qed
qed auto

lemma filterStruct_returns:
  shows "(s = VNil \<or> kindOf s = Struct) \<and> no_nil_ptr s \<longrightarrow>
           (\<exists>out. filterStruct tg s = Returns out)"
    and "no_nil_ptr_fields flds \<longrightarrow> (\<exists>out. filterStruct_loop tg' flds r = Returns out)"
    and "(kindOf (fvalue f) = Struct \<longrightarrow> asNullVar (fvalue f) \<noteq> Some Panic)
           \<and> no_nil_ptr (fvalue f) \<longrightarrow>
           (\<exists>out. filterStruct_field tg'' f r' = Returns out)"
proof (induction tg s and tg' flds r and tg'' f r'
    rule: filterStruct_filterStruct_loop_filterStruct_field.induct)
  case (6 tg f flds retMap)
  show ?case
  proof
    assume ok: "no_nil_ptr_fields (f # flds)"
    then have "(kindOf (fvalue f) = Struct \<longrightarrow> asNullVar (fvalue f) \<noteq> Some Panic)
        \<and> no_nil_ptr (fvalue f)"
      and rest: "no_nil_ptr_fields flds"
      by (cases f; simp)+
    with "6.IH"(1) obtain r1 where r1: "filterStruct_field tg f retMap = Returns r1"
      by blast
    with "6.IH"(2) [OF r1] rest show "\<exists>out. filterStruct_loop tg (f # flds) retMap = Returns out"
      by simp
  qed
next
  case (7 tg nm ex an tags ifc fieldValue retMap)
  let ?f = "Field nm ex an tags ifc fieldValue"
  show ?case
  proof
    assume "(kindOf (fvalue ?f) = Struct \<longrightarrow> asNullVar (fvalue ?f) \<noteq> Some Panic)
        \<and> no_nil_ptr (fvalue ?f)"
    then have np: "kindOf fieldValue = Struct \<longrightarrow> asNullVar fieldValue \<noteq> Some Panic"
      and ok: "no_nil_ptr fieldValue"
      by simp_all
    show "\<exists>out. filterStruct_field tg ?f retMap = Returns out"
    proof (cases "\<not> skipped tg ?f \<and> fieldKind ?f = Struct")
      case st: True
      then have kind: "kindOf fieldValue = Struct"
        by (simp add: fieldKind_def split: if_splits)
      show ?thesis
      proof (cases "implFilterable fieldValue")
        case True
        with "7.IH" st kind ok obtain fs where "filterStruct tg fieldValue = Returns fs"
          by blast
        with st True show ?thesis
          by (simp add: field_unfold)
      next
        case False
        with st np kind show ?thesis
          by (auto simp: field_unfold split: option.splits exec.splits)
      qed
    next
      case False
      have "\<exists>out. filterMap t = Returns out" if "asMap fieldValue = Some t" for t
        using filterMap_returns(1) [of t] ok that by (simp add: asMap_Some)
      with False show ?thesis
        by (auto simp: field_unfold split: option.splits exec.splits)
    qed
  qed
qed auto

text \<open>
  Claim C3 as stated says that in every case other than a nil input or a value that is
  not a struct both operations succeed. A nil pointer to a container satisfies
  \<open>nullVar\<close>, and the call of \<open>isSet\<close> through it panics: \<open>FilterMap\<close> on the non-nil
  mapping with the one entry \<open>a\<close> holding \<open>(*Var[string])(nil)\<close> neither returns an
  error nor succeeds.
\<close>

theorem nil_container_pointer_panics_counterexample:
  "Some [(''a'', VPtr True (VVar (Var False False (VScalar ''''))))] \<noteq> None
   \<and> FilterMap (Some [(''a'', VPtr True (VVar (Var False False (VScalar ''''))))]) = Panic"
  by (simp add: FilterMap_def)

text \<open>
  The same call is made through a struct that embeds a nil \<open>*Var[T]\<close>, as an entry of a
  mapping and as a tagged field of a record, and \<open>FilterStruct\<close> calls every option,
  also the nil function.
\<close>

lemma embedded_nil_pointer_panics:
  "FilterMap (Some [(''a'', VStruct False
       [Field ''Var'' True True [] False (VPtr True (VVar (Var False False (VScalar ''''))))])])
     = Panic"
  "FilterStruct
     (VStruct False
        [Field ''W'' True False [(''json'', ''w'')] False
           (VStruct False
              [Field ''Var'' True True [] False
                 (VPtr True (VVar (Var False False (VScalar ''''))))])]) []
     = Panic"
  by (simp_all add: field_eval entry_eval)

lemma nil_option_panics:
  "FilterStruct (VStruct False []) [None] = Panic"
  by (simp add: entry_eval)

text \<open>
  Claim C3, amended. \<open>FilterStruct\<close> returns an error and no mapping exactly when its
  input is nil (\<open>NilInput\<close>) or the kind of the input is not a struct (\<open>NotARecord\<close>);
  \<open>FilterMap\<close> returns an error and no mapping exactly when its input is the nil map
  (\<open>NilInput\<close>). In every other case the operation returns a non-nil (possibly empty)
  mapping and no error, or it panics. It returns whenever no option is the nil function
  and, in the mappings and records reached through nested mappings and struct fields,
  no entry of a string-to-any mapping and no field of struct kind is a value that
  satisfies \<open>nullVar\<close> through a nil pointer (a nil \<open>*Var[T]\<close>, or a struct that embeds
  one). The nil and kind checks come first: an error is never returned together with a
  mapping.
\<close>

theorem entry_point_outcomes:
  "(FilterStruct s opts = Returns (None, Some NilInput) \<longleftrightarrow> s = VNil)
   \<and> (FilterStruct s opts = Returns (None, Some NotARecord) \<longleftrightarrow> s \<noteq> VNil \<and> kindOf s \<noteq> Struct)
   \<and> ((\<exists>e. FilterStruct s opts = Returns (None, Some e)) \<longleftrightarrow> s = VNil \<or> kindOf s \<noteq> Struct)
   \<and> (s \<noteq> VNil \<and> kindOf s = Struct \<longrightarrow>
        FilterStruct s opts = Panic \<or> (\<exists>retMap. FilterStruct s opts = Returns (Some retMap, None)))
   \<and> (s \<noteq> VNil \<and> kindOf s = Struct \<and> None \<notin> set opts \<and> no_nil_ptr s \<longrightarrow>
        (\<exists>retMap. FilterStruct s opts = Returns (Some retMap, None)))
   \<and> ((\<exists>e. FilterMap m = Returns (None, Some e)) \<longleftrightarrow> m = None)
   \<and> (FilterMap m = Returns (None, Some NilInput) \<longleftrightarrow> m = None)
   \<and> (m \<noteq> None \<longrightarrow>
        FilterMap m = Panic \<or> (\<exists>retMap. FilterMap m = Returns (Some retMap, None)))
   \<and> (m \<noteq> None \<and> no_nil_ptr (VMap m) \<longrightarrow>
        (\<exists>retMap. FilterMap m = Returns (Some retMap, None)))"
proof -
  have s_ok: "\<exists>retMap. FilterStruct s opts = Returns (Some retMap, None)"
    if "s \<noteq> VNil" "kindOf s = Struct" "None \<notin> set opts" "no_nil_ptr s"
  proof -
    from that(3) obtain fOpts where fOpts: "applyOpts opts = Returns fOpts"
      unfolding applyOpts_def using applyOpts_loop_returns by blast
    from filterStruct_returns(1) [of s "tag fOpts"] that(2,4)
    obtain out where "filterStruct (tag fOpts) s = Returns out"
      by blast
    with that(1,2) fOpts show ?thesis
      by (simp add: FilterStruct_def)
  qed
  have m_ok: "\<exists>retMap. FilterMap m = Returns (Some retMap, None)"
    if "m \<noteq> None" "no_nil_ptr (VMap m)"
    using filterMap_returns(1) [of m] that
    by (auto simp: FilterMap_def)
  show ?thesis
    using s_ok m_ok
    by (auto simp: FilterStruct_def FilterMap_def split: exec.splits)
qed

theorem entry_point_outcomes_witness:
  "FilterStruct VNil [] = Returns (None, Some NilInput)
   \<and> FilterStruct (VScalar ''1'') [] = Returns (None, Some NotARecord)
   \<and> kindOf (VStruct False [Field ''B'' True False [(''json'', ''b'')] False (VScalar ''1'')])
       = Struct
   \<and> None \<notin> set [UseTag ''json'']
   \<and> no_nil_ptr (VStruct False [Field ''B'' True False [(''json'', ''b'')] False (VScalar ''1'')])
   \<and> FilterStruct
        (VStruct False [Field ''B'' True False [(''json'', ''b'')] False (VScalar ''1'')])
        [UseTag ''json'']
       = Returns (Some [(''b'', VScalar ''1'')], None)
   \<and> FilterMap None = Returns (None, Some NilInput)
   \<and> no_nil_ptr (VMap (Some [(''c'', VVar (Var False False (VScalar ''''))),
                              (''d'', VScalar ''D'')]))
   \<and> FilterMap (Some [(''c'', VVar (Var False False (VScalar ''''))), (''d'', VScalar ''D'')])
       = Returns (Some [(''d'', VScalar ''D'')], None)"
  using entry_point_outcomes [of VNil "[]" None]
    entry_point_outcomes [of "VScalar ''1''" "[]" None]
    entry_point_outcomes
      [of "VStruct False [Field ''B'' True False [(''json'', ''b'')] False (VScalar ''1'')]"
          "[UseTag ''json'']"
          "Some [(''c'', VVar (Var False False (VScalar ''''))), (''d'', VScalar ''D'')]"]
  by (simp add: field_eval entry_eval)

section \<open>Filtering a filtered mapping\<close>

lemma update_fresh: "k \<notin> fst ` set r \<Longrightarrow> AList.update k v r = r @ [(k, v)]"
  by (induction r) auto

lemma plain_filtered: "plain v \<Longrightarrow> filtered_val v"
  by (simp add: plain_def)

lemma getVal_filtered: "set_v c \<and> valid_v c \<longrightarrow> plain (value_v c) \<Longrightarrow> filtered_val (getVal c)"
  by (cases "set_v c \<and> valid_v c") (auto simp: getVal_def plain_def)

lemma filtered_vals_update:
  "filtered_vals r \<Longrightarrow> filtered_val v \<Longrightarrow> filtered_vals (AList.update k v r)"
  by (induction r) (auto simp del: filtered_val.simps)

lemma filtered_update: "filtered r \<Longrightarrow> filtered_val v \<Longrightarrow> filtered (AList.update k v r)"
  by (simp add: filtered_def filtered_vals_update distinct_update del: filtered_val.simps)

lemma filtered_map: "filtered mm \<Longrightarrow> length mm \<noteq> 0 \<Longrightarrow> filtered_val (VMap (Some mm))"
  by (simp add: filtered_def)

lemma output_filtered:
  shows "(\<forall>m. mo = Some m \<longrightarrow> plain_payloads m) \<longrightarrow>
           (\<forall>out. filterMap mo = Returns out \<longrightarrow> filtered out)"
    and "plain_payloads m \<and> filtered r \<longrightarrow>
           (\<forall>out. filterMap_loop m r = Returns out \<longrightarrow> filtered out)"
proof (induction mo and m r rule: filterMap_filterMap_loop.induct)
  case 1
  show ?case by (simp add: filtered_def)
next
  case (2 m)
  have "filtered []" by (simp add: filtered_def)
  with 2 show ?case by simp
next
  case (3 retMap)
  show ?case by simp
next
  case (4 k v m retMap)
  show ?case
  proof (intro impI allI, elim conjE)
    fix out
    assume pl: "plain_payloads ((k, v) # m)" and fr: "filtered retMap"
      and run: "filterMap_loop ((k, v) # m) retMap = Returns out"
    from pl have plm: "plain_payloads m"
      by simp
    show "filtered out"
    proof (cases "asNullVar v")
      case nv: None
      show ?thesis
      proof (cases "asMap v")
        case None
        with nv have "filtered_val v"
          by simp
        with fr have "filtered (AList.update k v retMap)"
          by (rule filtered_update)
        moreover from run nv None
        have "filterMap_loop m (AList.update k v retMap) = Returns out"
          by simp
        ultimately show ?thesis
          using "4.IH"(1) [OF nv None] plm by blast
      next
        case (Some val)
        from pl nv Some have plv: "\<forall>m'. val = Some m' \<longrightarrow> plain_payloads m'"
          by (cases val) simp_all
        from run nv Some obtain mm where mm: "filterMap val = Returns mm"
          by (cases "filterMap val") simp_all
        with "4.IH"(2) [OF nv Some] plv have fmm: "filtered mm"
          by blast
        show ?thesis
        proof (cases "length mm = 0")
          case True
          with run nv Some mm have "filterMap_loop m retMap = Returns out"
            by simp
          with "4.IH"(3) [OF nv Some mm True] plm fr show ?thesis
            by blast
        next
          case False
          with fmm have "filtered_val (VMap (Some mm))"
            by (rule filtered_map)
          with fr have "filtered (AList.update k (VMap (Some mm)) retMap)"
            by (rule filtered_update)
          moreover from run nv Some mm False
          have "filterMap_loop m (AList.update k (VMap (Some mm)) retMap) = Returns out"
            by simp
          ultimately show ?thesis
            using "4.IH"(4) [OF nv Some mm False] plm by blast
        qed
      qed
    next
      case (Some e)
      with run obtain val where val: "asNullVar v = Some (Returns val)"
        by (cases e) simp_all
      with pl have pv: "set_v val \<and> valid_v val \<longrightarrow> plain (value_v val)"
        by simp
      show ?thesis
      proof (cases "isSet val")
        case False
        with run val have "filterMap_loop m retMap = Returns out"
          by simp
        with "4.IH"(5) [OF val refl False] plm fr show ?thesis
          by blast
      next
        case True
        with run val have "filterMap_loop m (AList.update k (getVal val) retMap) = Returns out"
          by simp
        moreover from pv have "filtered_val (getVal val)"
          by (rule getVal_filtered)
        with fr have "filtered (AList.update k (getVal val) retMap)"
          by (rule filtered_update)
        moreover from True have nn: "\<not> \<not> isSet val"
          by simp
        ultimately show ?thesis
          using "4.IH"(6) [OF val refl nn] plm by blast
      qed
    qed
  qed
qed

lemma default_entry_fixed:
  assumes eq: "filterMap_loop ((k, v) # m) r = filterMap_loop m (AList.update k v r)"
    and IH: "filtered_vals m \<and> distinct (map fst (AList.update k v r @ m)) \<longrightarrow>
             filterMap_loop m (AList.update k v r) = Returns (AList.update k v r @ m)"
    and fm: "filtered_vals m"
    and d: "distinct (map fst (r @ (k, v) # m))"
  shows "filterMap_loop ((k, v) # m) r = Returns (r @ (k, v) # m)"
proof -
  from d have fresh: "k \<notin> fst ` set r"
    by auto
  then have upd: "AList.update k v r = r @ [(k, v)]"
    by (rule update_fresh)
  from d have "distinct (map fst ((r @ [(k, v)]) @ m))"
    by simp
  with IH fm upd have "filterMap_loop m (AList.update k v r) = Returns ((r @ [(k, v)]) @ m)"
    by simp
  with eq show "filterMap_loop ((k, v) # m) r = Returns (r @ (k, v) # m)"
    by simp
qed

lemma filtered_fixed_point:
  shows "\<forall>m. mo = Some m \<longrightarrow> filtered m \<longrightarrow> filterMap mo = Returns m"
    and "filtered_vals m \<and> distinct (map fst (r @ m)) \<longrightarrow> filterMap_loop m r = Returns (r @ m)"
proof (induction mo and m r rule: filterMap_filterMap_loop.induct)
  case 1
  show ?case by simp
next
  case (2 m)
  then show ?case by (simp add: filtered_def)
next
  case (3 retMap)
  show ?case by simp
next
  case (4 k v m retMap)
  show ?case
  proof (intro impI, elim conjE)
    assume fv: "filtered_vals ((k, v) # m)"
      and d: "distinct (map fst (retMap @ (k, v) # m))"
    from fv have nv: "asNullVar v = None" and fm: "filtered_vals m"
      by simp_all
    show "filterMap_loop ((k, v) # m) retMap = Returns (retMap @ (k, v) # m)"
    proof (cases "asMap v")
      case None
      with nv have eq: "filterMap_loop ((k, v) # m) retMap
          = filterMap_loop m (AList.update k v retMap)"
        by simp
      from "4.IH"(1) [OF nv None]
      have IH: "filtered_vals m \<and> distinct (map fst (AList.update k v retMap @ m)) \<longrightarrow>
          filterMap_loop m (AList.update k v retMap) = Returns (AList.update k v retMap @ m)"
        by blast
      from eq IH fm d show ?thesis
        by (rule default_entry_fixed)
    next
      case (Some val)
      then have v: "v = VMap val"
        by (simp add: asMap_Some)
      from fv Some obtain es where val: "val = Some es" and es: "es \<noteq> []" "filtered es"
        by (cases val) (auto simp: filtered_def)
      from "4.IH"(2) [OF nv Some] val es have mm: "filterMap val = Returns es"
        by blast
      from es(1) have ne: "length es \<noteq> 0"
        by simp
      from nv Some mm ne have eq: "filterMap_loop ((k, v) # m) retMap
          = filterMap_loop m (AList.update k v retMap)"
        by (simp add: v val)
      from "4.IH"(4) [OF nv Some mm ne]
      have "filtered_vals m \<and> distinct (map fst (AList.update k (VMap (Some es)) retMap @ m)) \<longrightarrow>
          filterMap_loop m (AList.update k (VMap (Some es)) retMap)
            = Returns (AList.update k (VMap (Some es)) retMap @ m)"
        by blast
      then have IH: "filtered_vals m \<and> distinct (map fst (AList.update k v retMap @ m)) \<longrightarrow>
          filterMap_loop m (AList.update k v retMap) = Returns (AList.update k v retMap @ m)"
        by (simp add: v val)
      from eq IH fm d show ?thesis
        by (rule default_entry_fixed)
    qed
  qed
qed

text \<open>
  Claim C4 as stated says that every output of the map filter is a fixed point of the map
  filter, because no container and no empty nested mapping is left in it. The filter
  stores the payload of a set and valid container as it is. A \<open>Var[map[string]any]\<close>
  set to the empty mapping leaves an empty nested mapping in the output, a
  \<open>Var[Var[string]]\<close> set to an unset container leaves a container in the output, and
  a \<open>Var[W]\<close> with \<open>W\<close> a struct that embeds \<open>Var[string]\<close>, set to a \<open>W\<close> whose
  container is unset, leaves a value that satisfies \<open>nullVar\<close>; the second pass
  removes all three.
\<close>

theorem filter_twice_differs_counterexample:
  "FilterMap (Some [(''k'', VVar (Var True True (VMap (Some []))))])
     = Returns (Some [(''k'', VMap (Some []))], None)
   \<and> FilterMap (Some [(''k'', VMap (Some []))]) = Returns (Some [], None)
   \<and> FilterMap (Some [(''n'', VVar (Var True True (VVar (Var False False (VScalar '''')))))])
     = Returns (Some [(''n'', VVar (Var False False (VScalar '''')))], None)
   \<and> FilterMap (Some [(''n'', VVar (Var False False (VScalar '''')))]) = Returns (Some [], None)
   \<and> FilterMap (Some [(''w'', VVar (Var True True
        (VStruct False
           [Field ''Var'' True True [] False (VVar (Var False False (VScalar '''')))])))])
     = Returns (Some [(''w'', VStruct False
           [Field ''Var'' True True [] False (VVar (Var False False (VScalar '''')))])], None)
   \<and> FilterMap (Some [(''w'', VStruct False
           [Field ''Var'' True True [] False (VVar (Var False False (VScalar '''')))])])
     = Returns (Some [], None)"
  by (simp add: field_eval entry_eval)

text \<open>
  Claim C4, amended. Map filtering is idempotent on every mapping in which the payload
  of each set and valid container met by the filter (at any depth of nested
  string-to-any mappings) is plain, that is, neither a value that satisfies \<open>nullVar\<close>
  (a container, a pointer to one, a struct that embeds one) nor a string-to-any mapping:
  the output then has distinct keys, holds no value that satisfies \<open>nullVar\<close> and no
  nil or empty nested string-to-any mapping, and filtering it again returns it unchanged.
\<close>

theorem filtering_plain_payloads_idempotent:
  "(plain_payloads m \<and> filterMap (Some m) = Returns out
      \<longrightarrow> filtered out \<and> filterMap (Some out) = Returns out)
   \<and> (plain_payloads m \<and> FilterMap (Some m) = Returns (Some out', None)
      \<longrightarrow> FilterMap (Some out') = Returns (Some out', None))"
proof -
  have fixed: "filtered out \<and> filterMap (Some out) = Returns out"
    if "plain_payloads m" and "filterMap (Some m) = Returns out" for out
  proof -
    from output_filtered(1) [of "Some m"] that have "filtered out"
      by blast
    with filtered_fixed_point(1) [of "Some out"] show ?thesis
      by blast
  qed
  have "FilterMap (Some out') = Returns (Some out', None)"
    if pl: "plain_payloads m" and run: "FilterMap (Some m) = Returns (Some out', None)"
  proof -
    from run have "filterMap (Some m) = Returns out'"
      by (cases "filterMap (Some m)") (simp_all add: FilterMap_def)
    with fixed pl have "filterMap (Some out') = Returns out'"
      by blast
    then show ?thesis
      by (simp add: FilterMap_def)
  qed
  with fixed show ?thesis
    by blast
qed

theorem filtering_plain_payloads_idempotent_witness:
  "plain_payloads
     [(''a'', VVar (Var True False (VScalar ''''))),
      (''b'', VVar (Var True True (VScalar ''B''))),
      (''c'', VVar (Var False False (VScalar ''''))),
      (''d'', VScalar ''D''),
      (''e'', VOtherMap [(''ee'', ''ee'')]),
      (''f'', VMap (Some [(''a'', VVar (Var True False (VScalar ''''))),
                          (''b'', VVar (Var True True (VScalar ''B'')))])),
      (''g'', VMap (Some [(''a'', VVar (Var False False (VScalar '''')))]))]
   \<and> FilterMap (Some
     [(''a'', VVar (Var True False (VScalar ''''))),
      (''b'', VVar (Var True True (VScalar ''B''))),
      (''c'', VVar (Var False False (VScalar ''''))),
      (''d'', VScalar ''D''),
      (''e'', VOtherMap [(''ee'', ''ee'')]),
      (''f'', VMap (Some [(''a'', VVar (Var True False (VScalar ''''))),
                          (''b'', VVar (Var True True (VScalar ''B'')))])),
      (''g'', VMap (Some [(''a'', VVar (Var False False (VScalar '''')))]))])
     = Returns (Some
         [(''a'', VNil), (''b'', VScalar ''B''), (''d'', VScalar ''D''),
          (''e'', VOtherMap [(''ee'', ''ee'')]),
          (''f'', VMap (Some [(''a'', VNil), (''b'', VScalar ''B'')]))], None)
   \<and> FilterMap (Some
         [(''a'', VNil), (''b'', VScalar ''B''), (''d'', VScalar ''D''),
          (''e'', VOtherMap [(''ee'', ''ee'')]),
          (''f'', VMap (Some [(''a'', VNil), (''b'', VScalar ''B'')]))])
     = Returns (Some
         [(''a'', VNil), (''b'', VScalar ''B''), (''d'', VScalar ''D''),
          (''e'', VOtherMap [(''ee'', ''ee'')]),
          (''f'', VMap (Some [(''a'', VNil), (''b'', VScalar ''B'')]))], None)"
proof -
  let ?m = "[(''a'', VVar (Var True False (VScalar ''''))),
      (''b'', VVar (Var True True (VScalar ''B''))),
      (''c'', VVar (Var False False (VScalar ''''))),
      (''d'', VScalar ''D''),
      (''e'', VOtherMap [(''ee'', ''ee'')]),
      (''f'', VMap (Some [(''a'', VVar (Var True False (VScalar ''''))),
                          (''b'', VVar (Var True True (VScalar ''B'')))])),
      (''g'', VMap (Some [(''a'', VVar (Var False False (VScalar '''')))]))]"
  let ?out = "[(''a'', VNil), (''b'', VScalar ''B''), (''d'', VScalar ''D''),
          (''e'', VOtherMap [(''ee'', ''ee'')]),
          (''f'', VMap (Some [(''a'', VNil), (''b'', VScalar ''B'')]))]"
  have h: "plain_payloads ?m \<and> FilterMap (Some ?m) = Returns (Some ?out, None)"
    by (simp add: field_eval entry_eval plain_def)
  from filtering_plain_payloads_idempotent [THEN conjunct2, THEN mp, OF h] h
  show ?thesis
    by blast
qed

section \<open>Termination\<close>

text \<open>
  Claim C9. On every finite, acyclic input (every value of the model is one)
  \<open>FilterStruct\<close> and \<open>FilterMap\<close> terminate. Every argument of \<open>filterMap\<close>, of its
  loop, of \<open>filterStruct\<close>, of its loop and of the pass through one field is in the
  domain of the recursion, that is, in the accessible part of the relation between a
  recursive call and its caller: each call descends into the entries of the mapping, the
  fields of the record or the value of the entry or field, so the size of the argument
  decreases. Hence a call of an entry point ends: it panics or it returns.
\<close>

theorem filtering_terminates:
  "filterMap_filterMap_loop_dom (Inl mo)
   \<and> filterMap_filterMap_loop_dom (Inr (m, retMap))
   \<and> filterStruct_filterStruct_loop_filterStruct_field_dom (Inl (tg, s))
   \<and> filterStruct_filterStruct_loop_filterStruct_field_dom (Inr (Inl (tg, flds, retMap)))
   \<and> filterStruct_filterStruct_loop_filterStruct_field_dom (Inr (Inr (tg, f, retMap)))
   \<and> (FilterMap mo = Panic \<or> (\<exists>res. FilterMap mo = Returns res))
   \<and> (FilterStruct s opts = Panic \<or> (\<exists>res. FilterStruct s opts = Returns res))"
proof -
  have map_dom: "All filterMap_filterMap_loop_dom"
    by (rule "filterMap_filterMap_loop.termination"
          [of "measure (case_sum (size_option (size_list (size_prod (\<lambda>_. 0) size)))
                 (\<lambda>(m, retMap). size_list (size_prod (\<lambda>_. 0) size) m))"])
       (auto elim!: asMap.elims)
  have struct_dom: "All filterStruct_filterStruct_loop_filterStruct_field_dom"
    by (rule "filterStruct_filterStruct_loop_filterStruct_field.termination"
          [of "measure (case_sum (\<lambda>(tg, s). size s)
                 (case_sum (\<lambda>(tg, flds, retMap). size_list (size_field size) flds)
                           (\<lambda>(tg, f, retMap). size_field size f)))"])
       auto
  have "FilterMap mo = Panic \<or> (\<exists>res. FilterMap mo = Returns res)"
    by (cases "FilterMap mo") simp_all
  moreover have "FilterStruct s opts = Panic \<or> (\<exists>res. FilterStruct s opts = Returns res)"
    by (cases "FilterStruct s opts") simp_all
  ultimately show ?thesis
    using map_dom struct_dom by blast
qed

section \<open>The tests of the repository\<close>

text \<open>
  \<open>TestFilterMap\<close>: the mapping of the test (containers that are null, set and unset, a
  plain value, a map of another type, a nested mapping that keeps two entries and one
  that keeps none) filters to the expected mapping, and the nil map is refused.
\<close>

theorem test_FilterMap:
  "FilterMap None = Returns (None, Some NilInput)
   \<and> FilterMap (Some
       [(''a'', VVar (Var True False (VScalar ''''))),
        (''b'', VVar (Var True True (VScalar ''B''))),
        (''c'', VVar (Var False False (VScalar ''''))),
        (''d'', VScalar ''D''),
        (''e'', VOtherMap [(''ee'', ''ee'')]),
        (''f'', VMap (Some [(''a'', VVar (Var True False (VScalar ''''))),
                            (''b'', VVar (Var True True (VScalar ''B'')))])),
        (''g'', VMap (Some [(''a'', VVar (Var False False (VScalar '''')))]))])
     = Returns (Some
         [(''a'', VNil), (''b'', VScalar ''B''), (''d'', VScalar ''D''),
          (''e'', VOtherMap [(''ee'', ''ee'')]),
          (''f'', VMap (Some [(''a'', VNil), (''b'', VScalar ''B'')]))], None)"
  by (simp add: field_eval entry_eval)

text \<open>
  \<open>TestFilterStruct\<close>, first part: nil and a value that is not a struct are refused;
  the zero value of \<open>S1\<close> (which embeds the interface \<open>Filterable\<close> and the record
  \<open>S3\<close>, and nests \<open>S2\<close> and \<open>S3\<close>) filters to the expected mapping under the default
  tag, and to the smaller one under \<open>custom_tag\<close>.
\<close>

theorem test_FilterStruct_S1:
  "FilterStruct VNil [] = Returns (None, Some NilInput)
   \<and> FilterStruct (VScalar ''1'') [] = Returns (None, Some NotARecord)
   \<and> FilterStruct
       (VStruct True
          [Field ''Filterable'' True True [] True VNil,
           Field ''NullFieldStr'' True False [(''json'', ''str''), (''custom_tag'', ''str'')] False
             (VVar (Var False False (VScalar ''''))),
           Field ''unexportedNullFieldInt64'' False False
             [(''json'', ''unexported_nullfield_int64''),
              (''custom_tag'', ''unexported_nullfield_int64'')] False
             (VVar (Var False False (VScalar ''0''))),
           Field ''OtherField'' True False
             [(''json'', ''other_str''), (''custom_tag'', ''other_str'')] False (VScalar ''''),
           Field ''StructField'' True False [(''json'', ''s2''), (''custom_tag'', ''s2'')] False
             (VStruct True
                [Field ''Filterable'' True True [] True VNil,
                 Field ''NoTagNullableStr'' True False [] False
                   (VVar (Var False False (VScalar ''''))),
                 Field ''unexportedNullableStr'' False False [] False
                   (VVar (Var False False (VScalar ''''))),
                 Field ''OtherS2Field'' True False
                   [(''json'', ''s2_other_str''), (''custom_tag'', ''s2_other_str'')] False
                   (VScalar '''')]),
           Field ''AnotherStructField'' True False [(''json'', ''s3'')] False
             (VStruct True
                [Field ''Filterable'' True True [] True VNil,
                 Field ''SomeField'' True False [(''json'', ''some_field'')] False (VScalar '''')]),
           Field ''S3'' True True [] False
             (VStruct True
                [Field ''Filterable'' True True [] True VNil,
                 Field ''SomeField'' True False [(''json'', ''some_field'')] False (VScalar '''')])])
       []
     = Returns (Some
         [(''other_str'', VScalar ''''),
          (''s2'', VMap (Some [(''s2_other_str'', VScalar '''')])),
          (''s3'', VMap (Some [(''some_field'', VScalar '''')])),
          (''some_field'', VScalar '''')], None)
   \<and> FilterStruct
       (VStruct True
          [Field ''Filterable'' True True [] True VNil,
           Field ''NullFieldStr'' True False [(''json'', ''str''), (''custom_tag'', ''str'')] False
             (VVar (Var False False (VScalar ''''))),
           Field ''unexportedNullFieldInt64'' False False
             [(''json'', ''unexported_nullfield_int64''),
              (''custom_tag'', ''unexported_nullfield_int64'')] False
             (VVar (Var False False (VScalar ''0''))),
           Field ''OtherField'' True False
             [(''json'', ''other_str''), (''custom_tag'', ''other_str'')] False (VScalar ''''),
           Field ''StructField'' True False [(''json'', ''s2''), (''custom_tag'', ''s2'')] False
             (VStruct True
                [Field ''Filterable'' True True [] True VNil,
                 Field ''NoTagNullableStr'' True False [] False
                   (VVar (Var False False (VScalar ''''))),
                 Field ''unexportedNullableStr'' False False [] False
                   (VVar (Var False False (VScalar ''''))),
                 Field ''OtherS2Field'' True False
                   [(''json'', ''s2_other_str''), (''custom_tag'', ''s2_other_str'')] False
                   (VScalar '''')]),
           Field ''AnotherStructField'' True False [(''json'', ''s3'')] False
             (VStruct True
                [Field ''Filterable'' True True [] True VNil,
                 Field ''SomeField'' True False [(''json'', ''some_field'')] False (VScalar '''')]),
           Field ''S3'' True True [] False
             (VStruct True
                [Field ''Filterable'' True True [] True VNil,
                 Field ''SomeField'' True False [(''json'', ''some_field'')] False (VScalar '''')])])
       [UseTag ''custom_tag'']
     = Returns (Some
         [(''other_str'', VScalar ''''),
          (''s2'', VMap (Some [(''s2_other_str'', VScalar '''')]))], None)"
  by (simp add: field_eval entry_eval)

text \<open>
  \<open>TestFilterStruct\<close>, second part: the value of \<open>S5\<close> (a null container, a plain
  string, a mapping with nested containers, a map of another type, a mapping that keeps
  nothing, a nested \<open>Filterable\<close> record with one null container, an embedded
  \<open>Filterable\<close> record under the key \<open>ss\<close> that keeps nothing, and two records that are
  not \<open>Filterable\<close>, one of them embedded under a key) filters to the expected mapping,
  under the default tag and under \<open>UseTag("")\<close>.
\<close>

theorem test_FilterStruct_S5:
  "FilterStruct
       (VStruct False
          [Field ''A'' True False [(''json'', ''a'')] False (VVar (Var True False (VScalar ''''))),
           Field ''B'' True False [(''json'', ''b'')] False (VScalar ''''),
           Field ''M'' True False [(''json'', ''m'')] False
             (VMap (Some
                [(''z'', VVar (Var True True (VScalar ''z''))),
                 (''zz'', VVar (Var False False (VScalar ''''))),
                 (''zzz'', VScalar ''5''),
                 (''mm'', VMap (Some
                    [(''q'', VScalar ''''),
                     (''qq'', VVar (Var True True (VScalar ''0.2''))),
                     (''qqq'', VVar (Var True False (VScalar ''0'')))]))])),
           Field ''M2'' True False [(''json'', ''m2'')] False
             (VOtherMap [(''m2'', ''222''), (''m22'', ''2222'')]),
           Field ''M3'' True False [(''json'', ''m3'')] False
             (VMap (Some [(''m3'', VVar (Var False False (VScalar '''')))])),
           Field ''S'' True False [(''json'', ''s'')] False
             (VStruct True
                [Field ''Filterable'' True True [] True VNil,
                 Field ''C'' True False [(''json'', ''c'')] False
                   (VVar (Var False False (VScalar ''0''))),
                 Field ''D'' True False [(''json'', ''d'')] False
                   (VVar (Var True False (VScalar ''0'')))]),
           Field ''S4'' True True [(''json'', ''ss'')] False
             (VStruct True
                [Field ''Filterable'' True True [] True VNil,
                 Field ''C'' True False [(''json'', ''c'')] False
                   (VVar (Var False False (VScalar ''0''))),
                 Field ''D'' True False [(''json'', ''d'')] False
                   (VVar (Var False False (VScalar ''0'')))]),
           Field ''US6'' True False [(''json'', ''s6_1'')] False
             (VStruct False [Field ''K'' True False [(''json'', ''k'')] False (VScalar '''')]),
           Field ''S6'' True True [(''json'', ''s6_2'')] False
             (VStruct False [Field ''K'' True False [(''json'', ''k'')] False (VScalar '''')])])
       [UseTag '''']
     = Returns (Some
         [(''a'', VNil),
          (''b'', VScalar ''''),
          (''m'', VMap (Some
             [(''z'', VScalar ''z''), (''zzz'', VScalar ''5''),
              (''mm'', VMap (Some
                 [(''q'', VScalar ''''), (''qq'', VScalar ''0.2''), (''qqq'', VNil)]))])),
          (''m2'', VOtherMap [(''m2'', ''222''), (''m22'', ''2222'')]),
          (''s'', VMap (Some [(''d'', VNil)])),
          (''s6_1'',
             VStruct False [Field ''K'' True False [(''json'', ''k'')] False (VScalar '''')]),
          (''s6_2'',
             VStruct False [Field ''K'' True False [(''json'', ''k'')] False (VScalar '''')])],
         None)
   \<and> applyOpts [UseTag ''''] = applyOpts []"
  by (simp add: field_eval entry_eval)

end
